theory Spec2Isabelle
  imports Main "HOL-Library.Sublist"
begin

section \<open>StakeholderGPT: the grilling pipeline of \<^verbatim>\<open>main.py\<close>\<close>

text \<open>
  The program builds three stakeholder agents, gives each one task that quotes the pitch,
  runs the three tasks as one crew, joins the three outputs into one text, and runs a
  fourth task (given to the CEO agent) that quotes the pitch and the joined text.

  A Python string is a list of Unicode code points, each a natural number; the literals
  of the source are ASCII and are written as \<open>ustr ''...''\<close>.
  The language model behind \<^verbatim>\<open>crewai\<close> is a parameter of the model: a function from the
  task it is asked to perform and its own state to a reply (or an error) and a new state.
\<close>

subsection \<open>Data\<close>

type_synonym str = "nat list"

definition ustr :: "string \<Rightarrow> str" where
  "ustr s = map of_char s"

datatype error =
    Exit int                 \<comment> \<open>\<^verbatim>\<open>raise typer.Exit(code)\<close>\<close>
  | FileNotFoundError str    \<comment> \<open>\<^verbatim>\<open>open(pitch_file, 'r')\<close> on a path that does not exist\<close>
  | IndexError               \<comment> \<open>a list subscript out of range\<close>
  | GenerationFailure str    \<comment> \<open>an exception raised while the model is asked for text\<close>

record Agent =
  role :: str
  goal :: str
  backstory :: str
  verbose :: bool
  llm :: str

record Task =
  description :: str
  expected_output :: str
  agent :: Agent
  "output" :: "str option"  \<comment> \<open>\<^verbatim>\<open>None\<close> until the crew has run the task\<close>

record Crew =
  agents :: "Agent list"
  tasks :: "Task list"
  crew_verbose :: bool

text \<open>
  What \<^verbatim>\<open>console.print\<close> shows, one event per call. The decorative texts are fixed and
  are named here instead of spelled out; the events that carry text of the run keep it.
\<close>

datatype console_event =
    EnterPitchPrompt        \<comment> \<open>line 159\<close>
  | NoPitchProvided         \<comment> \<open>line 164\<close>
  | Banner                  \<comment> \<open>lines 167-171\<close>
  | AssemblingMessage         \<comment> \<open>line 174\<close>
  | StartingSession         \<comment> \<open>line 181\<close>
  | QuestionsPanel string   \<comment> \<open>lines 192, 195, 198: the panel titled with the given label\<close>
  | MarkdownText str        \<comment> \<open>lines 193, 196, 199: \<^verbatim>\<open>Markdown(str(...))\<close>\<close>
  | CalculatingScore        \<comment> \<open>line 211\<close>
  | AssessmentPanel str     \<comment> \<open>lines 217-221: the panel around \<^verbatim>\<open>Markdown(str(eval_task.output))\<close>\<close>
  | SessionComplete         \<comment> \<open>line 223\<close>

text \<open>
  The state a run threads through: the requests the model has received so far, each with
  the reply it gave (oldest first), what has been printed, and the model's own state.
\<close>

record 's world =
  calls :: "(Task \<times> (error + str)) list"
  console :: "console_event list"
  llm_state :: 's

type_synonym 's capability = "Task \<Rightarrow> 's \<Rightarrow> (error + str) \<times> 's"

text \<open>What the process reads: environment variables, files by path, standard input.\<close>

record env =
  environ :: "str \<rightharpoonup> str"
  files :: "str \<rightharpoonup> str"
  stdin :: str

subsection \<open>Configuration and personas\<close>

definition getenv :: "(str \<rightharpoonup> str) \<Rightarrow> str \<Rightarrow> str \<Rightarrow> str" where
  "getenv vars key dflt = (case vars key of None \<Rightarrow> dflt | Some v \<Rightarrow> v)"

definition LLM_CONFIG :: "env \<Rightarrow> str" where
  "LLM_CONFIG e = getenv (environ e) (ustr ''STAKEHOLDER_MODEL'') (ustr ''ollama/llama3.1:8b'')"

definition ceo_agent :: "str \<Rightarrow> Agent" where
  "ceo_agent model = \<lparr>
     role = ustr ''CEO'',
     goal = ustr ''Evaluate roadmap proposals from a business and strategic perspective'',
     backstory =
       ustr (''You are a seasoned CEO who has built multiple successful companies. \<newline>'' @
             ''        You care deeply about ROI, market timing, resource allocation, and strategic focus. \<newline>'' @
             ''        You ask tough questions about business value and opportunity cost. \<newline>'' @
             ''        You're supportive but demanding - you want to see clear thinking.''),
     verbose = False,
     llm = model \<rparr>"

definition cto_agent :: "str \<Rightarrow> Agent" where
  "cto_agent model = \<lparr>
     role = ustr ''CTO'',
     goal = ustr ''Evaluate roadmap proposals from a technical feasibility and architecture perspective'',
     backstory =
       ustr (''You are an experienced CTO who has scaled systems from startup to enterprise.\<newline>'' @
             ''        You care about technical debt, scalability, integration complexity, and team capacity.\<newline>'' @
             ''        You ask probing questions about implementation risks and technical trade-offs.\<newline>'' @
             ''        You're collaborative but rigorous - you want realistic plans.''),
     verbose = False,
     llm = model \<rparr>"

definition designer_agent :: "str \<Rightarrow> Agent" where
  "designer_agent model = \<lparr>
     role = ustr ''Head of Design'',
     goal = ustr ''Evaluate roadmap proposals from a user experience and validation perspective'',
     backstory =
       ustr (''You are a user-obsessed design leader who has shipped products used by millions.\<newline>'' @
             ''        You care about user problems, validation, usability, and design coherence.\<newline>'' @
             ''        You ask challenging questions about user research and experience trade-offs.\<newline>'' @
             ''        You're empathetic but principled - you advocate for users.''),
     verbose = False,
     llm = model \<rparr>"

text \<open>\<^verbatim>\<open>create_stakeholders\<close> (lines 22-58); the model name is the global \<^verbatim>\<open>LLM_CONFIG["model"]\<close>.\<close>

definition create_stakeholders :: "str \<Rightarrow> Agent \<times> Agent \<times> Agent" where
  "create_stakeholders model = (ceo_agent model, cto_agent model, designer_agent model)"

subsection \<open>Tasks\<close>

definition ceo_task :: "str \<Rightarrow> Agent \<Rightarrow> Task" where
  "ceo_task pitch ceo = \<lparr>
     description =
       ustr (''Review this roadmap pitch and ask 2-3 tough business questions:\<newline>'' @
             ''\<newline>'' @
             ''PITCH:\<newline>'') @
       pitch @
       ustr (''\<newline>'' @
             ''\<newline>'' @
             ''Ask questions a CEO would ask:\<newline>'' @
             ''- What's the ROI and how did you calculate it?\<newline>'' @
             ''- Why now? What's the market timing?\<newline>'' @
             ''- What are we choosing NOT to do by pursuing this?\<newline>'' @
             ''- How does this align with our strategic priorities?\<newline>'' @
             ''- What's the competitive risk if we don't do this?\<newline>'' @
             ''\<newline>'' @
             ''Be direct but constructive. Challenge assumptions.''),
     expected_output = ustr ''2-3 tough business-focused questions about the roadmap pitch'',
     agent = ceo,
     output = None \<rparr>"

definition cto_task :: "str \<Rightarrow> Agent \<Rightarrow> Task" where
  "cto_task pitch cto = \<lparr>
     description =
       ustr (''Review this roadmap pitch and ask 2-3 tough technical questions:\<newline>'' @
             ''\<newline>'' @
             ''PITCH:\<newline>'') @
       pitch @
       ustr (''\<newline>'' @
             ''\<newline>'' @
             ''Ask questions a CTO would ask:\<newline>'' @
             ''- How does this scale? What's the architecture?\<newline>'' @
             ''- What technical debt are we taking on?\<newline>'' @
             ''- What are the integration risks with existing systems?\<newline>'' @
             ''- Do we have the team capacity and skills?\<newline>'' @
             ''- What's the rollback plan if it fails?\<newline>'' @
             ''\<newline>'' @
             ''Be thorough but fair. Identify real technical risks.''),
     expected_output = ustr ''2-3 tough technical questions about the roadmap pitch'',
     agent = cto,
     output = None \<rparr>"

definition designer_task :: "str \<Rightarrow> Agent \<Rightarrow> Task" where
  "designer_task pitch designer = \<lparr>
     description =
       ustr (''Review this roadmap pitch and ask 2-3 tough user experience questions:\<newline>'' @
             ''\<newline>'' @
             ''PITCH:\<newline>'') @
       pitch @
       ustr (''\<newline>'' @
             ''\<newline>'' @
             ''Ask questions a Head of Design would ask:\<newline>'' @
             ''- What specific user problem does this solve?\<newline>'' @
             ''- How have we validated this with users?\<newline>'' @
             ''- What's the UX complexity for end users?\<newline>'' @
             ''- How does this fit with our existing product experience?\<newline>'' @
             ''- What are users asking for that we're ignoring?\<newline>'' @
             ''\<newline>'' @
             ''Be user-focused but practical. Advocate for the customer.''),
     expected_output = ustr ''2-3 tough user experience questions about the roadmap pitch'',
     agent = designer,
     output = None \<rparr>"

text \<open>\<^verbatim>\<open>create_grilling_tasks\<close> (lines 61-118).\<close>

definition create_grilling_tasks :: "str \<Rightarrow> Agent \<Rightarrow> Agent \<Rightarrow> Agent \<Rightarrow> Task list" where
  "create_grilling_tasks pitch ceo cto designer =
     [ceo_task pitch ceo, cto_task pitch cto, designer_task pitch designer]"

text \<open>\<^verbatim>\<open>create_evaluation_task\<close> (lines 121-142).\<close>

definition create_evaluation_task :: "str \<Rightarrow> str \<Rightarrow> Agent \<Rightarrow> Task" where
  "create_evaluation_task pitch questions ceo = \<lparr>
     description =
       ustr (''Based on the stakeholder questions raised about this pitch, provide a readiness assessment:\<newline>'' @
             ''\<newline>'' @
             ''ORIGINAL PITCH:\<newline>'') @
       pitch @
       ustr (''\<newline>'' @
             ''\<newline>'' @
             ''STAKEHOLDER QUESTIONS:\<newline>'') @
       questions @
       ustr (''\<newline>'' @
             ''\<newline>'' @
             ''Provide:\<newline>'' @
             ''1. **Readiness Score**: 1-10 (10 = ready to present to real stakeholders)\<newline>'' @
             ''2. **Strengths**: What's strong about this pitch?\<newline>'' @
             ''3. **Gaps**: What needs more work before the real meeting?\<newline>'' @
             ''4. **Suggested Improvements**: 3 specific things to add or clarify\<newline>'' @
             ''\<newline>'' @
             ''Be honest and helpful. The goal is to make them better prepared.''),
     expected_output =
       ustr ''A readiness assessment with score, strengths, gaps, and improvement suggestions'',
     agent = ceo,
     output = None \<rparr>"

subsection \<open>Running a crew\<close>

text \<open>
  \<^verbatim>\<open>Crew\<close> and its \<^verbatim>\<open>kickoff\<close> belong to the \<^verbatim>\<open>crewai\<close> library, which is not part of
  the repository; the three definitions below follow sections 5 to 7 of the specification.
  Whatever the library passes from one task to the next is covered by the model's own
  state, which every request may read and change.
\<close>

text \<open>
  Modelled from the spec: one task of a crew (the body of \<^verbatim>\<open>Crew.kickoff\<close> is missing).
  The model is asked once; the request and its reply go to the log; a reply is stored in
  the task's \<^verbatim>\<open>output\<close>, a failure is passed on as the exception it is.
\<close>

definition execute_task :: "'s capability \<Rightarrow> Task \<Rightarrow> 's world \<Rightarrow> (error + Task) \<times> 's world" where
  "execute_task gen t w =
     (case gen t (llm_state w) of
        (r, s') \<Rightarrow>
          let w' = w\<lparr>calls := calls w @ [(t, r)], llm_state := s'\<rparr> in
          (case r of
             Inl e \<Rightarrow> (Inl e, w')
           | Inr text \<Rightarrow> (Inr (t\<lparr>output := Some text\<rparr>), w')))"

text \<open>
  Modelled from the spec: the tasks of a crew (the body of \<^verbatim>\<open>Crew.kickoff\<close> is missing).
  They run in list order, each after the one before it has returned, and the first failure
  ends the run: the tasks after it are not started.
\<close>

fun run_tasks :: "'s capability \<Rightarrow> Task list \<Rightarrow> 's world \<Rightarrow> (error + Task list) \<times> 's world" where
  "run_tasks gen [] w = (Inr [], w)"
| "run_tasks gen (t # ts) w =
     (case execute_task gen t w of
        (Inl e, w') \<Rightarrow> (Inl e, w')
      | (Inr t', w') \<Rightarrow>
          (case run_tasks gen ts w' of
             (Inl e, w'') \<Rightarrow> (Inl e, w'')
           | (Inr ts', w'') \<Rightarrow> (Inr (t' # ts'), w'')))"

text \<open>
  Modelled from the spec: \<^verbatim>\<open>Crew.kickoff\<close> (missing, see above). The library changes the
  task objects in place; here \<open>kickoff\<close> returns the crew with its tasks after the run.
\<close>

definition kickoff :: "'s capability \<Rightarrow> Crew \<Rightarrow> 's world \<Rightarrow> (error + Crew) \<times> 's world" where
  "kickoff gen crew w =
     (case run_tasks gen (tasks crew) w of
        (Inl e, w') \<Rightarrow> (Inl e, w')
      | (Inr ts', w') \<Rightarrow> (Inr (crew\<lparr>tasks := ts'\<rparr>), w'))"

subsection \<open>The command \<^verbatim>\<open>grill\<close>\<close>

text \<open>
  \<^verbatim>\<open>str.isspace\<close>: the 29 code points that Python counts as whitespace, which are also
  the ones \<^verbatim>\<open>str.strip()\<close> removes from both ends. They are U+0009 to U+000D, U+001C to
  U+0020, U+0085, U+00A0, U+1680, U+2000 to U+200A, U+2028, U+2029, U+202F, U+205F and
  U+3000.
\<close>

definition isspace :: "nat \<Rightarrow> bool" where
  "isspace c =
     ((9 \<le> c \<and> c \<le> 13) \<or> (28 \<le> c \<and> c \<le> 32) \<or> c = 133 \<or> c = 160 \<or> c = 5760
      \<or> (8192 \<le> c \<and> c \<le> 8202) \<or> c = 8232 \<or> c = 8233 \<or> c = 8239 \<or> c = 8287
      \<or> c = 12288)"

definition strip :: "str \<Rightarrow> str" where
  "strip s = rev (dropWhile isspace (rev (dropWhile isspace s)))"

text \<open>Python's truth value of an optional string: \<^verbatim>\<open>None\<close> and \<^verbatim>\<open>""\<close> are false.\<close>

fun truthy :: "str option \<Rightarrow> bool" where
  "truthy None = False"
| "truthy (Some s) = (s \<noteq> [])"

definition print :: "console_event \<Rightarrow> 's world \<Rightarrow> 's world" where
  "print ev w = w\<lparr>console := console w @ [ev]\<rparr>"

text \<open>\<^verbatim>\<open>str(task.output)\<close>, also where an f-string formats it; \<^verbatim>\<open>str(None)\<close> is \<^verbatim>\<open>"None"\<close>.\<close>

fun str_output :: "str option \<Rightarrow> str" where
  "str_output None = ustr ''None''"
| "str_output (Some text) = text"

text \<open>Lines 152-161: where the pitch text comes from.\<close>

definition read_pitch ::
  "env \<Rightarrow> str option \<Rightarrow> str option \<Rightarrow> 's world \<Rightarrow> (error + str) \<times> 's world" where
  "read_pitch e pitch pitch_file w =
     (if truthy pitch_file then
        (case files e (the pitch_file) of
           None \<Rightarrow> (Inl (FileNotFoundError (the pitch_file)), w)
         | Some content \<Rightarrow> (Inr content, w))
      else if truthy pitch then (Inr (the pitch), w)
      else (Inr (stdin e), print EnterPitchPrompt w))"

text \<open>
  Lines 192-199: the three panels with the questions. \<^verbatim>\<open>tasks[i]\<close> raises
  \<^verbatim>\<open>IndexError\<close> on a list that is too short; the list of the run always has three tasks.
\<close>

fun show_questions :: "Task list \<Rightarrow> error + console_event list" where
  "show_questions (t0 # t1 # t2 # rest) = Inr
     [QuestionsPanel ''CEO'', MarkdownText (str_output (output t0)),
      QuestionsPanel ''CTO'', MarkdownText (str_output (output t1)),
      QuestionsPanel ''Designer'', MarkdownText (str_output (output t2))]"
| "show_questions short = Inl IndexError"

text \<open>Lines 202-208: the f-string that joins the three outputs.\<close>

fun all_questions :: "Task list \<Rightarrow> error + str" where
  "all_questions (t0 # t1 # t2 # rest) = Inr (
     ustr (''\<newline>'' @
           ''CEO: '') @ str_output (output t0) @
     ustr (''\<newline>'' @
           ''\<newline>'' @
           ''CTO: '') @ str_output (output t1) @
     ustr (''\<newline>'' @
           ''\<newline>'' @
           ''Designer: '') @ str_output (output t2) @
     ustr ''\<newline>'')"
| "all_questions short = Inl IndexError"

text \<open>What a run that reaches line 223 has built: the local variables of \<^verbatim>\<open>grill\<close>.\<close>

record session =
  grilled :: "Task list"       \<comment> \<open>\<^verbatim>\<open>tasks\<close>, after the first crew has run\<close>
  composite :: str              \<comment> \<open>\<^verbatim>\<open>all_questions\<close>\<close>
  evaluated :: Task             \<comment> \<open>\<^verbatim>\<open>eval_task\<close>, after the second crew has run\<close>

text \<open>
  Lines 163-223, from the pitch text on. A crew that has run a list of one task returns a
  list of one task (\<open>run_tasks_length\<close> below), so \<open>hd\<close> reads the evaluation task.
\<close>

definition grill_core :: "'s capability \<Rightarrow> env \<Rightarrow> str \<Rightarrow> 's world \<Rightarrow> (error + session) \<times> 's world" where
  "grill_core gen e pitch_text w =
     (if strip pitch_text = [] then (Inl (Exit 1), print NoPitchProvided w)
      else
        (case create_stakeholders (LLM_CONFIG e) of
           (ceo, cto, designer) \<Rightarrow>
             let w1 = print AssemblingMessage (print Banner w);
                 ts = create_grilling_tasks pitch_text ceo cto designer;
                 w2 = print StartingSession w1;
                 crew = \<lparr>agents = [ceo, cto, designer], tasks = ts, crew_verbose = False\<rparr>
             in
             (case kickoff gen crew w2 of
                (Inl err, w3) \<Rightarrow> (Inl err, w3)
              | (Inr crew', w3) \<Rightarrow>
                  (case show_questions (tasks crew') of
                     Inl err \<Rightarrow> (Inl err, w3)
                   | Inr panels \<Rightarrow>
                       let w4 = w3\<lparr>console := console w3 @ panels\<rparr> in
                       (case all_questions (tasks crew') of
                          Inl err \<Rightarrow> (Inl err, w4)
                        | Inr aq \<Rightarrow>
                            let w5 = print CalculatingScore w4;
                                eval_task = create_evaluation_task pitch_text aq ceo;
                                eval_crew = \<lparr>agents = [ceo], tasks = [eval_task], crew_verbose = False\<rparr>
                            in
                            (case kickoff gen eval_crew w5 of
                               (Inl err, w6) \<Rightarrow> (Inl err, w6)
                             | (Inr eval_crew', w6) \<Rightarrow>
                                 let eval_task' = hd (tasks eval_crew');
                                     w7 = print (AssessmentPanel (str_output (output eval_task'))) w6;
                                     w8 = print SessionComplete w7
                                 in (Inr \<lparr>grilled = tasks crew', composite = aq,
                                          evaluated = eval_task'\<rparr>, w8)))))))"

text \<open>The whole command, lines 145-223.\<close>

definition grill ::
  "'s capability \<Rightarrow> env \<Rightarrow> str option \<Rightarrow> str option \<Rightarrow> 's world \<Rightarrow> (error + session) \<times> 's world" where
  "grill gen e pitch pitch_file w =
     (case read_pitch e pitch pitch_file w of
        (Inl err, w') \<Rightarrow> (Inl err, w')
      | (Inr pitch_text, w') \<Rightarrow> grill_core gen e pitch_text w')"

subsection \<open>The tasks and agents of one run\<close>

text \<open>The three agents that \<^verbatim>\<open>grill\<close> gets from \<^verbatim>\<open>create_stakeholders()\<close> in environment \<open>e\<close>.\<close>

definition panel_ceo :: "env \<Rightarrow> Agent" where
  "panel_ceo e = ceo_agent (LLM_CONFIG e)"

definition panel_cto :: "env \<Rightarrow> Agent" where
  "panel_cto e = cto_agent (LLM_CONFIG e)"

definition panel_designer :: "env \<Rightarrow> Agent" where
  "panel_designer e = designer_agent (LLM_CONFIG e)"

text \<open>The list \<^verbatim>\<open>tasks\<close> of a run on pitch text \<open>p\<close> (line 178).\<close>

definition grilling_tasks :: "env \<Rightarrow> str \<Rightarrow> Task list" where
  "grilling_tasks e p =
     create_grilling_tasks p (panel_ceo e) (panel_cto e) (panel_designer e)"

text \<open>What lines 192-199 print, and what lines 202-208 build, from three replies.\<close>

definition shown :: "str \<Rightarrow> str \<Rightarrow> str \<Rightarrow> console_event list" where
  "shown q1 q2 q3 =
     [QuestionsPanel ''CEO'', MarkdownText q1, QuestionsPanel ''CTO'', MarkdownText q2,
      QuestionsPanel ''Designer'', MarkdownText q3]"

definition joined :: "str \<Rightarrow> str \<Rightarrow> str \<Rightarrow> str" where
  "joined q1 q2 q3 =
     ustr ''\<newline>CEO: '' @ q1 @ ustr ''\<newline>\<newline>CTO: '' @ q2 @
     ustr ''\<newline>\<newline>Designer: '' @ q3 @ ustr ''\<newline>''"

text \<open>The state at line 183, after the three opening messages.\<close>

definition started :: "'s world \<Rightarrow> 's world" where
  "started w = print StartingSession (print AssemblingMessage (print Banner w))"

subsection \<open>The specification's aggregate\<close>

text \<open>
  Section 4.3 in its own words: one block \<^verbatim>\<open><Role>: <QuestionSet text>\<close> per entry, in the
  order of the entries, the blocks separated by blank lines, the empty sequence giving the
  empty text. This is the specification's operation, to compare \<open>all_questions\<close> with.
\<close>

fun spec_aggregate :: "(str \<times> str) list \<Rightarrow> str" where
  "spec_aggregate [] = []"
| "spec_aggregate [(r, q)] = r @ ustr '': '' @ q"
| "spec_aggregate ((r, q) # entry # entries) =
     r @ ustr '': '' @ q @ ustr ''\<newline>\<newline>'' @ spec_aggregate (entry # entries)"

text \<open>A model whose reply to a request does not depend on its state.\<close>

definition deterministic :: "'s capability \<Rightarrow> bool" where
  "deterministic gen = (\<forall>t s s'. fst (gen t s) = fst (gen t s'))"

subsection \<open>Stub models and a start state\<close>

text \<open>
  The stub of the end-to-end scenario: its state counts the requests, and the replies are
  the four fixed texts in order.
\<close>

definition scripted_stub :: "nat capability" where
  "scripted_stub t n =
     (if n = 0 then Inr (ustr ''CEO-Q'')
      else if n = 1 then Inr (ustr ''CTO-Q'')
      else if n = 2 then Inr (ustr ''Designer-Q'')
      else Inr (ustr ''Score: 7\<newline>Strengths: ...\<newline>Gaps: ...\<newline>Improvements: ...''),
      Suc n)"


text \<open>A model that cannot be reached.\<close>

definition unreachable_stub :: "nat capability" where
  "unreachable_stub t n = (Inl (GenerationFailure (ustr ''connection refused'')), Suc n)"

text \<open>A model that answers the CEO's question task and fails on the CTO's.\<close>

definition cto_down_stub :: "nat capability" where
  "cto_down_stub t n =
     (if role (agent t) = ustr ''CTO'' then Inl (GenerationFailure (ustr ''timeout''))
      else Inr (role (agent t) @ ustr ''-Q''), Suc n)"

text \<open>A model that answers by the role of the agent and counts its requests.\<close>

definition role_stub :: "nat capability" where
  "role_stub t n = (Inr (role (agent t) @ ustr '' asks why''), Suc n)"

definition e0 :: env where
  "e0 = \<lparr>environ = Map.empty, files = Map.empty, stdin = []\<rparr>"

definition w0 :: "nat world" where
  "w0 = \<lparr>calls = [], console = [], llm_state = 0\<rparr>"

section \<open>Properties\<close>

subsection \<open>Literals\<close>

lemma ustr_simps:
  "ustr [] = []" "ustr (c # cs) = of_char c # ustr cs" "ustr (a @ b) = ustr a @ ustr b"
  by (simp_all add: ustr_def)

lemma ustr_eq_iff: "ustr a = ustr b \<longleftrightarrow> a = b"
  by (simp add: ustr_def inj_map_eq_map inj_on_def)

lemma sublist_ustr: "sublist a b \<Longrightarrow> sublist (ustr a) (ustr b)"
proof -
  assume "sublist a b"
  then obtain ps ss where "b = ps @ a @ ss" by (auto simp: sublist_def)
  then have "ustr b = ustr ps @ ustr a @ ustr ss" by (simp add: ustr_def)
  then show ?thesis unfolding sublist_def by blast
qed


subsection \<open>Trimming\<close>

lemma strip_empty_iff: "strip s = [] \<longleftrightarrow> (\<forall>c \<in> set s. isspace c)"
proof -
  have "strip s = [] \<longleftrightarrow> dropWhile isspace (rev (dropWhile isspace s)) = []"
    by (simp add: strip_def)
  also have "\<dots> \<longleftrightarrow> (\<forall>c \<in> set (dropWhile isspace s). isspace c)"
    by (simp add: dropWhile_eq_Nil_conv)
  also have "\<dots> \<longleftrightarrow> (\<forall>c \<in> set s. isspace c)"
  proof
    assume a: "\<forall>c \<in> set (dropWhile isspace s). isspace c"
    show "\<forall>c \<in> set s. isspace c"
    proof (cases "dropWhile isspace s")
      case Nil
      then show ?thesis by (simp add: dropWhile_eq_Nil_conv)
    next
      case (Cons x xs)
      then have "\<not> isspace x" using hd_dropWhile [of isspace s] by auto
      moreover have "x \<in> set (dropWhile isspace s)" using Cons by simp
      ultimately show ?thesis using a by blast
    qed
  next
    assume "\<forall>c \<in> set s. isspace c"
    then show "\<forall>c \<in> set (dropWhile isspace s). isspace c"
      using set_dropWhileD by fastforce
  qed
  finally show ?thesis .
qed

lemma strip_nonblank: "c \<in> set s \<Longrightarrow> \<not> isspace c \<Longrightarrow> strip s \<noteq> []"
  by (auto simp: strip_empty_iff)

lemma strip_ship_it: "strip (ustr ''Ship it'') \<noteq> []"
  by (rule strip_nonblank [of "of_char CHR ''S''"]) (simp_all add: ustr_simps isspace_def)

lemma strip_ship_feature: "strip (ustr ''Ship feature X in Q2 with 2 engineers'') \<noteq> []"
  by (rule strip_nonblank [of "of_char CHR ''S''"]) (simp_all add: ustr_simps isspace_def)

subsection \<open>Running a crew\<close>

lemma execute_task_cases [case_names fail ok]:
  assumes "execute_task gen t w = (r, w')"
  obtains
    (fail) err where "r = Inl err" "fst (gen t (llm_state w)) = Inl err"
      "w' = w\<lparr>calls := calls w @ [(t, Inl err)], llm_state := snd (gen t (llm_state w))\<rparr>"
  | (ok) reply where "r = Inr (t\<lparr>output := Some reply\<rparr>)" "fst (gen t (llm_state w)) = Inr reply"
      "w' = w\<lparr>calls := calls w @ [(t, Inr reply)], llm_state := snd (gen t (llm_state w))\<rparr>"
  using assms
  by (auto simp: execute_task_def Let_def split: prod.splits sum.splits)

lemma execute_task_calls:
  assumes "execute_task gen t w = (r, w')"
  shows "console w' = console w"
    and "(\<exists>err. r = Inl err \<and> calls w' = calls w @ [(t, Inl err)])
       \<or> (\<exists>text. r = Inr (t\<lparr>output := Some text\<rparr>) \<and> calls w' = calls w @ [(t, Inr text)])"
  using assms by (cases rule: execute_task_cases; simp)+

lemma run_tasks3_cases [consumes 1, case_names fail1 fail2 fail3 ok]:
  assumes "run_tasks gen [t1, t2, t3] w = (r, w')"
  obtains
    (fail1) err where "r = Inl err" "calls w' = calls w @ [(t1, Inl err)]"
  | (fail2) q1 err where "r = Inl err" "calls w' = calls w @ [(t1, Inr q1), (t2, Inl err)]"
  | (fail3) q1 q2 err where "r = Inl err"
      "calls w' = calls w @ [(t1, Inr q1), (t2, Inr q2), (t3, Inl err)]"
  | (ok) q1 q2 q3 where
      "r = Inr [t1\<lparr>output := Some q1\<rparr>, t2\<lparr>output := Some q2\<rparr>, t3\<lparr>output := Some q3\<rparr>]"
      "calls w' = calls w @ [(t1, Inr q1), (t2, Inr q2), (t3, Inr q3)]"
proof -
  obtain r1 w1 where e1: "execute_task gen t1 w = (r1, w1)" by (cases "execute_task gen t1 w")
  obtain r2 w2 where e2: "execute_task gen t2 w1 = (r2, w2)" by (cases "execute_task gen t2 w1")
  obtain r3 w3 where e3: "execute_task gen t3 w2 = (r3, w3)" by (cases "execute_task gen t3 w2")
  note c1 = execute_task_calls(2) [OF e1] and c2 = execute_task_calls(2) [OF e2]
    and c3 = execute_task_calls(2) [OF e3]
  show thesis
    using assms e1 e2 e3 c1 c2 c3 fail1 fail2 fail3 ok
    by (auto split: sum.splits)
qed

lemma run_tasks_console:
  "run_tasks gen ts w = (r, w') \<Longrightarrow> console w' = console w"
proof (induction ts arbitrary: w r w')
  case Nil
  then show ?case by simp
next
  case (Cons t ts)
  obtain r1 w1 where e1: "execute_task gen t w = (r1, w1)" by (cases "execute_task gen t w")
  have c1: "console w1 = console w" using execute_task_calls(1) [OF e1] .
  show ?case
  proof (cases r1)
    case (Inl err)
    then show ?thesis using Cons.prems e1 c1 by simp
  next
    case (Inr t')
    obtain r2 w2 where e2: "run_tasks gen ts w1 = (r2, w2)" by (cases "run_tasks gen ts w1")
    have "console w2 = console w1" using Cons.IH [OF e2] .
    moreover have "w' = w2" using Cons.prems e1 e2 Inr by (auto split: sum.splits)
    ultimately show ?thesis using c1 by simp
  qed
qed

lemma run_tasks_length:
  "run_tasks gen ts w = (Inr ts', w') \<Longrightarrow> length ts' = length ts"
proof (induction ts arbitrary: w ts' w')
  case Nil
  then show ?case by simp
next
  case (Cons t ts)
  then show ?case by (auto split: prod.splits sum.splits)
qed

lemma run_tasks1_cases [consumes 1, case_names fail ok]:
  assumes "run_tasks gen [t] w = (r, w')"
  obtains
    (fail) err where "r = Inl err" "calls w' = calls w @ [(t, Inl err)]"
  | (ok) a where "r = Inr [t\<lparr>output := Some a\<rparr>]" "calls w' = calls w @ [(t, Inr a)]"
proof -
  obtain r1 w1 where e1: "execute_task gen t w = (r1, w1)" by (cases "execute_task gen t w")
  note c1 = execute_task_calls(2) [OF e1]
  show thesis using assms e1 c1 fail ok by (auto split: sum.splits)
qed

subsection \<open>The five ways a run on a pitch that is not blank can end\<close>

lemma grill_core_generation_failed:
  assumes "strip p \<noteq> []"
    and "run_tasks gen (grilling_tasks e p) (started w) = (Inl err, w3)"
  shows "grill_core gen e p w = (Inl err, w3)"
  using assms
  by (simp add: grill_core_def kickoff_def create_stakeholders_def grilling_tasks_def
      panel_ceo_def panel_cto_def panel_designer_def started_def Let_def)

lemma grill_core_generation_ok:
  assumes "strip p \<noteq> []"
    and "run_tasks gen (grilling_tasks e p) (started w) =
           (Inr [t1\<lparr>output := Some q1\<rparr>, t2\<lparr>output := Some q2\<rparr>, t3\<lparr>output := Some q3\<rparr>], w3)"
  shows "grill_core gen e p w =
     (case run_tasks gen [create_evaluation_task p (joined q1 q2 q3) (panel_ceo e)]
             (print CalculatingScore (w3\<lparr>console := console w3 @ shown q1 q2 q3\<rparr>)) of
        (Inl err, w6) \<Rightarrow> (Inl err, w6)
      | (Inr ets, w6) \<Rightarrow>
          (Inr \<lparr>grilled = [t1\<lparr>output := Some q1\<rparr>, t2\<lparr>output := Some q2\<rparr>, t3\<lparr>output := Some q3\<rparr>],
                composite = joined q1 q2 q3, evaluated = hd ets\<rparr>,
           print SessionComplete (print (AssessmentPanel (str_output (output (hd ets)))) w6)))"
  using assms
  by (simp add: grill_core_def kickoff_def create_stakeholders_def grilling_tasks_def
      panel_ceo_def panel_cto_def panel_designer_def started_def Let_def shown_def joined_def
      split: prod.splits sum.splits)

lemma grill_core_cases [consumes 2, case_names fail1 fail2 fail3 fail_eval finished]:
  assumes nb: "strip p \<noteq> []" and run: "grill_core gen e p w = (res, w')"
  obtains
    (fail1) err where "res = Inl err"
      "calls w' = calls w @ [(ceo_task p (panel_ceo e), Inl err)]"
      "console w' = console w @ [Banner, AssemblingMessage, StartingSession]"
  | (fail2) q1 err where "res = Inl err"
      "calls w' = calls w @ [(ceo_task p (panel_ceo e), Inr q1), (cto_task p (panel_cto e), Inl err)]"
      "console w' = console w @ [Banner, AssemblingMessage, StartingSession]"
  | (fail3) q1 q2 err where "res = Inl err"
      "calls w' = calls w @ [(ceo_task p (panel_ceo e), Inr q1), (cto_task p (panel_cto e), Inr q2),
         (designer_task p (panel_designer e), Inl err)]"
      "console w' = console w @ [Banner, AssemblingMessage, StartingSession]"
  | (fail_eval) q1 q2 q3 err where "res = Inl err"
      "calls w' = calls w @ [(ceo_task p (panel_ceo e), Inr q1), (cto_task p (panel_cto e), Inr q2),
         (designer_task p (panel_designer e), Inr q3),
         (create_evaluation_task p (joined q1 q2 q3) (panel_ceo e), Inl err)]"
      "console w' = console w @ [Banner, AssemblingMessage, StartingSession] @ shown q1 q2 q3 @
         [CalculatingScore]"
  | (finished) q1 q2 q3 a where
      "res = Inr \<lparr>grilled = [(ceo_task p (panel_ceo e))\<lparr>output := Some q1\<rparr>,
                              (cto_task p (panel_cto e))\<lparr>output := Some q2\<rparr>,
                              (designer_task p (panel_designer e))\<lparr>output := Some q3\<rparr>],
                   composite = joined q1 q2 q3,
                   evaluated = (create_evaluation_task p (joined q1 q2 q3) (panel_ceo e))\<lparr>output := Some a\<rparr>\<rparr>"
      "calls w' = calls w @ [(ceo_task p (panel_ceo e), Inr q1), (cto_task p (panel_cto e), Inr q2),
         (designer_task p (panel_designer e), Inr q3),
         (create_evaluation_task p (joined q1 q2 q3) (panel_ceo e), Inr a)]"
      "console w' = console w @ [Banner, AssemblingMessage, StartingSession] @ shown q1 q2 q3 @
         [CalculatingScore, AssessmentPanel a, SessionComplete]"
proof -
  let ?t1 = "ceo_task p (panel_ceo e)" and ?t2 = "cto_task p (panel_cto e)"
    and ?t3 = "designer_task p (panel_designer e)"
  have ts: "grilling_tasks e p = [?t1, ?t2, ?t3]"
    by (simp add: grilling_tasks_def create_grilling_tasks_def)
  have w2: "calls (started w) = calls w"
    "console (started w) = console w @ [Banner, AssemblingMessage, StartingSession]"
    by (simp_all add: started_def print_def)
  obtain r1 w3 where k1: "run_tasks gen [?t1, ?t2, ?t3] (started w) = (r1, w3)"
    by (cases "run_tasks gen [?t1, ?t2, ?t3] (started w)")
  have k1': "run_tasks gen (grilling_tasks e p) (started w) = (r1, w3)"
    using k1 by (simp only: ts)
  have c3: "console w3 = console w @ [Banner, AssemblingMessage, StartingSession]"
    using run_tasks_console [OF k1] w2 by simp
  from k1 show thesis
  proof (cases rule: run_tasks3_cases)
    case (fail1 err)
    then have "grill_core gen e p w = (Inl err, w3)"
      using grill_core_generation_failed [OF nb] k1' by simp
    then show ?thesis using run fail1 w2 c3 that(1) by simp
  next
    case (fail2 q1 err)
    then have "grill_core gen e p w = (Inl err, w3)"
      using grill_core_generation_failed [OF nb] k1' by simp
    then show ?thesis using run fail2 w2 c3 that(2) by simp
  next
    case (fail3 q1 q2 err)
    then have "grill_core gen e p w = (Inl err, w3)"
      using grill_core_generation_failed [OF nb] k1' by simp
    then show ?thesis using run fail3 w2 c3 that(3) by simp
  next
    case (ok q1 q2 q3)
    let ?ev = "create_evaluation_task p (joined q1 q2 q3) (panel_ceo e)"
    let ?w5 = "print CalculatingScore (w3\<lparr>console := console w3 @ shown q1 q2 q3\<rparr>)"
    have w5: "calls ?w5 = calls w3"
      "console ?w5 = console w @ [Banner, AssemblingMessage, StartingSession] @ shown q1 q2 q3 @
         [CalculatingScore]"
      using c3 by (simp_all add: print_def)
    obtain r2 w6 where k2: "run_tasks gen [?ev] ?w5 = (r2, w6)"
      by (cases "run_tasks gen [?ev] ?w5")
    have c6: "console w6 = console ?w5" using run_tasks_console [OF k2] .
    have g: "grill_core gen e p w =
       (case (r2, w6) of
          (Inl err, w6) \<Rightarrow> (Inl err, w6)
        | (Inr ets, w6) \<Rightarrow>
            (Inr \<lparr>grilled = [?t1\<lparr>output := Some q1\<rparr>, ?t2\<lparr>output := Some q2\<rparr>,
                              ?t3\<lparr>output := Some q3\<rparr>],
                  composite = joined q1 q2 q3, evaluated = hd ets\<rparr>,
             print SessionComplete (print (AssessmentPanel (str_output (output (hd ets)))) w6)))"
      using grill_core_generation_ok [OF nb k1' [unfolded ok(1)]] k2 by simp
    from k2 show ?thesis
    proof (cases rule: run_tasks1_cases)
      case (fail err)
      then show ?thesis using g run ok(2) w2 w5 c6 that(4) by simp
    next
      case (ok a)
      then show ?thesis using g run \<open>calls w3 = _\<close> w2 w5 c6 that(5) by (simp add: print_def)
    qed
  qed
qed

subsection \<open>Telling the tasks apart\<close>


lemma description_heads:
  "hd (description (create_evaluation_task p q a)) = of_char CHR ''B''"
  "hd (description (ceo_task p' x)) = of_char CHR ''R''"
  "hd (description (cto_task p' y)) = of_char CHR ''R''"
  "hd (description (designer_task p' z)) = of_char CHR ''R''"
  unfolding create_evaluation_task_def ceo_task_def cto_task_def designer_task_def
  by (simp_all only: Task.simps append_Cons list.sel ustr_simps(2))

lemma evaluation_task_differs:
  "create_evaluation_task p q a \<noteq> ceo_task p' x"
  "create_evaluation_task p q a \<noteq> cto_task p' y"
  "create_evaluation_task p q a \<noteq> designer_task p' z"
proof -
  have b: "hd (description (create_evaluation_task p q a)) \<noteq> (of_char CHR ''R'' :: nat)"
    by (simp only: description_heads) simp
  show "create_evaluation_task p q a \<noteq> ceo_task p' x"
    using b description_heads(2) [of p' x] by metis
  show "create_evaluation_task p q a \<noteq> cto_task p' y"
    using b description_heads(3) [of p' y] by metis
  show "create_evaluation_task p q a \<noteq> designer_task p' z"
    using b description_heads(4) [of p' z] by metis
qed

lemma grilling_tasks_eq:
  "grilling_tasks e p =
     [ceo_task p (panel_ceo e), cto_task p (panel_cto e), designer_task p (panel_designer e)]"
  by (simp add: grilling_tasks_def create_grilling_tasks_def)

lemma evaluation_task_not_grilling:
  "create_evaluation_task p q a \<notin> set (grilling_tasks e p')"
  by (simp add: grilling_tasks_eq evaluation_task_differs)

lemma grilling_roles:
  "map (\<lambda>t. role (agent t)) (grilling_tasks e p) = [ustr ''CEO'', ustr ''CTO'', ustr ''Head of Design'']"
  by (simp add: grilling_tasks_eq ceo_task_def cto_task_def designer_task_def
      panel_ceo_def panel_cto_def panel_designer_def ceo_agent_def cto_agent_def designer_agent_def)

lemma blank_run:
  assumes "strip p = []" and "grill_core gen e p w = (res, w')"
  shows "res = Inl (Exit 1)" "calls w' = calls w" "console w' = console w @ [NoPitchProvided]"
  using assms by (auto simp: grill_core_def print_def)

subsection \<open>The requests of a run\<close>

lemma run_log_cases [consumes 2, case_names blank fail1 fail2 fail3 evaluated]:
  assumes run: "grill_core gen e p w = (res, w')" and log: "calls w' = calls w @ log"
  obtains
    (blank) "strip p = []" "log = []"
  | (fail1) err where "strip p \<noteq> []" "log = [(ceo_task p (panel_ceo e), Inl err)]"
  | (fail2) q1 err where "strip p \<noteq> []"
      "log = [(ceo_task p (panel_ceo e), Inr q1), (cto_task p (panel_cto e), Inl err)]"
  | (fail3) q1 q2 err where "strip p \<noteq> []"
      "log = [(ceo_task p (panel_ceo e), Inr q1), (cto_task p (panel_cto e), Inr q2),
              (designer_task p (panel_designer e), Inl err)]"
  | (evaluated) q1 q2 q3 r where "strip p \<noteq> []"
      "log = [(ceo_task p (panel_ceo e), Inr q1), (cto_task p (panel_cto e), Inr q2),
              (designer_task p (panel_designer e), Inr q3),
              (create_evaluation_task p (joined q1 q2 q3) (panel_ceo e), r)]"
proof (cases "strip p = []")
  case True
  then show ?thesis using blank_run [OF True run] log blank by simp
next
  case False
  from False run show ?thesis
  proof (cases rule: grill_core_cases)
    case (fail1 err)
    then show ?thesis using log False that(2) by simp
  next
    case (fail2 q1 err)
    then show ?thesis using log False that(3) by simp
  next
    case (fail3 q1 q2 err)
    then show ?thesis using log False that(4) by simp
  next
    case (fail_eval q1 q2 q3 err)
    then show ?thesis using log False that(5) by simp
  next
    case (finished q1 q2 q3 a)
    then show ?thesis using log False that(5) by simp
  qed
qed

lemma task_agents:
  "agent (ceo_task p a) = a" "agent (cto_task p a) = a" "agent (designer_task p a) = a"
  "agent (create_evaluation_task p q a) = a"
  by (simp_all add: ceo_task_def cto_task_def designer_task_def create_evaluation_task_def)

lemma panel_roles:
  "role (panel_ceo e) = ustr ''CEO''" "role (panel_cto e) = ustr ''CTO''"
  "role (panel_designer e) = ustr ''Head of Design''"
  by (simp_all add: panel_ceo_def panel_cto_def panel_designer_def
      ceo_agent_def cto_agent_def designer_agent_def)

lemma panel_distinct: "distinct [panel_ceo e, panel_cto e, panel_designer e]"
proof -
  have "ustr ''CEO'' \<noteq> ustr ''CTO''" "ustr ''CEO'' \<noteq> ustr ''Head of Design''"
    "ustr ''CTO'' \<noteq> ustr ''Head of Design''"
    by (simp_all add: ustr_eq_iff)
  then show ?thesis using panel_roles [of e] by (auto simp del: ustr_eq_iff)
qed

subsection \<open>Scenario runs\<close>

lemma ustr_append_lit: "ustr a @ ustr b = ustr (a @ b)"
  by (simp add: ustr_simps)

lemma run_scripted:
  "grill_core scripted_stub e0 (ustr ''Ship feature X in Q2 with 2 engineers'') w0 =
     (Inr \<lparr>grilled =
             [(ceo_task (ustr ''Ship feature X in Q2 with 2 engineers'') (panel_ceo e0))
                \<lparr>output := Some (ustr ''CEO-Q'')\<rparr>,
              (cto_task (ustr ''Ship feature X in Q2 with 2 engineers'') (panel_cto e0))
                \<lparr>output := Some (ustr ''CTO-Q'')\<rparr>,
              (designer_task (ustr ''Ship feature X in Q2 with 2 engineers'') (panel_designer e0))
                \<lparr>output := Some (ustr ''Designer-Q'')\<rparr>],
           composite = joined (ustr ''CEO-Q'') (ustr ''CTO-Q'') (ustr ''Designer-Q''),
           evaluated =
             (create_evaluation_task (ustr ''Ship feature X in Q2 with 2 engineers'')
                (joined (ustr ''CEO-Q'') (ustr ''CTO-Q'') (ustr ''Designer-Q'')) (panel_ceo e0))
               \<lparr>output := Some (ustr ''Score: 7\<newline>Strengths: ...\<newline>Gaps: ...\<newline>Improvements: ...'')\<rparr>\<rparr>,
      \<lparr>calls =
         [(ceo_task (ustr ''Ship feature X in Q2 with 2 engineers'') (panel_ceo e0), Inr (ustr ''CEO-Q'')),
          (cto_task (ustr ''Ship feature X in Q2 with 2 engineers'') (panel_cto e0), Inr (ustr ''CTO-Q'')),
          (designer_task (ustr ''Ship feature X in Q2 with 2 engineers'') (panel_designer e0),
           Inr (ustr ''Designer-Q'')),
          (create_evaluation_task (ustr ''Ship feature X in Q2 with 2 engineers'')
             (joined (ustr ''CEO-Q'') (ustr ''CTO-Q'') (ustr ''Designer-Q'')) (panel_ceo e0),
           Inr (ustr ''Score: 7\<newline>Strengths: ...\<newline>Gaps: ...\<newline>Improvements: ...''))],
       console =
         [Banner, AssemblingMessage, StartingSession,
          QuestionsPanel ''CEO'', MarkdownText (ustr ''CEO-Q''),
          QuestionsPanel ''CTO'', MarkdownText (ustr ''CTO-Q''),
          QuestionsPanel ''Designer'', MarkdownText (ustr ''Designer-Q''),
          CalculatingScore,
          AssessmentPanel (ustr ''Score: 7\<newline>Strengths: ...\<newline>Gaps: ...\<newline>Improvements: ...''),
          SessionComplete],
       llm_state = 4\<rparr>)"
proof -
  note nb = strip_ship_feature
  have k1: "run_tasks scripted_stub (grilling_tasks e0 (ustr ''Ship feature X in Q2 with 2 engineers''))
      (started w0) =
     (Inr [(ceo_task (ustr ''Ship feature X in Q2 with 2 engineers'') (panel_ceo e0))
                \<lparr>output := Some (ustr ''CEO-Q'')\<rparr>,
              (cto_task (ustr ''Ship feature X in Q2 with 2 engineers'') (panel_cto e0))
                \<lparr>output := Some (ustr ''CTO-Q'')\<rparr>,
              (designer_task (ustr ''Ship feature X in Q2 with 2 engineers'') (panel_designer e0))
                \<lparr>output := Some (ustr ''Designer-Q'')\<rparr>],
      \<lparr>calls =
         [(ceo_task (ustr ''Ship feature X in Q2 with 2 engineers'') (panel_ceo e0), Inr (ustr ''CEO-Q'')),
          (cto_task (ustr ''Ship feature X in Q2 with 2 engineers'') (panel_cto e0), Inr (ustr ''CTO-Q'')),
          (designer_task (ustr ''Ship feature X in Q2 with 2 engineers'') (panel_designer e0),
           Inr (ustr ''Designer-Q''))],
       console = [Banner, AssemblingMessage, StartingSession], llm_state = 3\<rparr>)"
    by (simp add: grilling_tasks_eq execute_task_def scripted_stub_def started_def print_def
        w0_def Let_def)
  show ?thesis
    by (simp add: grill_core_generation_ok [OF nb k1] execute_task_def scripted_stub_def
        print_def shown_def Let_def)
qed

lemma run_cto_down:
  "grill_core cto_down_stub e0 (ustr ''Ship it'') w0 =
     (Inl (GenerationFailure (ustr ''timeout'')),
      \<lparr>calls = [(ceo_task (ustr ''Ship it'') (panel_ceo e0), Inr (ustr ''CEO-Q'')),
                (cto_task (ustr ''Ship it'') (panel_cto e0),
                 Inl (GenerationFailure (ustr ''timeout'')))],
       console = [Banner, AssemblingMessage, StartingSession], llm_state = 2\<rparr>)"
proof -
  have k: "run_tasks cto_down_stub (grilling_tasks e0 (ustr ''Ship it'')) (started w0) =
     (Inl (GenerationFailure (ustr ''timeout'')),
      \<lparr>calls = [(ceo_task (ustr ''Ship it'') (panel_ceo e0), Inr (ustr ''CEO-Q'')),
                (cto_task (ustr ''Ship it'') (panel_cto e0),
                 Inl (GenerationFailure (ustr ''timeout'')))],
       console = [Banner, AssemblingMessage, StartingSession], llm_state = 2\<rparr>)"
    by (simp add: grilling_tasks_eq execute_task_def cto_down_stub_def started_def print_def
        w0_def Let_def task_agents panel_roles ustr_eq_iff ustr_append_lit)
  show ?thesis by (rule grill_core_generation_failed [OF strip_ship_it k])
qed


lemma strip_padded: "strip (ustr '' Ship it\<newline>'') = ustr ''Ship it''"
  by (simp add: strip_def isspace_def ustr_def)

lemma run_padded:
  "grill unreachable_stub e0 (Some (ustr '' Ship it\<newline>'')) None w0 =
     (Inl (GenerationFailure (ustr ''connection refused'')),
      \<lparr>calls = [(ceo_task (ustr '' Ship it\<newline>'') (panel_ceo e0),
                 Inl (GenerationFailure (ustr ''connection refused'')))],
       console = [Banner, AssemblingMessage, StartingSession], llm_state = 1\<rparr>)"
proof -
  have nb: "strip (ustr '' Ship it\<newline>'') \<noteq> []"
    by (simp only: strip_padded) (simp add: ustr_simps)
  have k: "run_tasks unreachable_stub (grilling_tasks e0 (ustr '' Ship it\<newline>'')) (started w0) =
     (Inl (GenerationFailure (ustr ''connection refused'')),
      \<lparr>calls = [(ceo_task (ustr '' Ship it\<newline>'') (panel_ceo e0),
                 Inl (GenerationFailure (ustr ''connection refused'')))],
       console = [Banner, AssemblingMessage, StartingSession], llm_state = 1\<rparr>)"
    by (simp add: grilling_tasks_eq execute_task_def unreachable_stub_def started_def print_def
        w0_def Let_def)
  have rd: "read_pitch e0 (Some (ustr '' Ship it\<newline>'')) None w0 = (Inr (ustr '' Ship it\<newline>''), w0)"
    by (simp add: read_pitch_def ustr_simps)
  show ?thesis
    by (simp add: grill_def rd grill_core_generation_failed [OF nb k])
qed

subsection \<open>Rejecting a blank pitch\<close>

text \<open>
  Claim C2. A pitch text that is empty or made of whitespace only (any of the code points
  that \<^verbatim>\<open>str.strip()\<close> removes, whatever their place in Unicode) is rejected: the run ends
  with \<^verbatim>\<open>typer.Exit(1)\<close> right after the message that no pitch was provided, the model
  has received no request (neither a question task nor the evaluation task) and its state
  is untouched.
\<close>

theorem blank_pitch_rejected:
  assumes "\<forall>c \<in> set p. isspace c"
  shows "fst (grill_core gen e p w) = Inl (Exit 1)
       \<and> calls (snd (grill_core gen e p w)) = calls w
       \<and> llm_state (snd (grill_core gen e p w)) = llm_state w
       \<and> console (snd (grill_core gen e p w)) = console w @ [NoPitchProvided]"
proof -
  have "strip p = []" using assms by (simp add: strip_empty_iff)
  then show ?thesis by (simp add: grill_core_def print_def)
qed

text \<open>
  The witness is the pitch of an em space (U+2003), a line feed, a space and an ideographic
  space (U+3000).
\<close>

theorem blank_pitch_rejected_witness:
  "list_all isspace [8195, 10, 32, 12288]
   \<and> fst (grill_core scripted_stub e0 [8195, 10, 32, 12288] w0) = Inl (Exit 1)
   \<and> calls (snd (grill_core scripted_stub e0 [8195, 10, 32, 12288] w0)) = []
   \<and> llm_state (snd (grill_core scripted_stub e0 [8195, 10, 32, 12288] w0)) = 0
   \<and> console (snd (grill_core scripted_stub e0 [8195, 10, 32, 12288] w0)) = [NoPitchProvided]"
proof -
  have h: "\<forall>c \<in> set [8195, 10, 32, 12288]. isspace c" by (simp add: isspace_def)
  show ?thesis
    using h blank_pitch_rejected [OF h, of scripted_stub e0 w0]
    by (simp add: w0_def list_all_iff)
qed

subsection \<open>The order of the requests\<close>

text \<open>
  Claim C1. Take a pitch text with at least one character that is not whitespace, and a run
  on it in which no request for a question task fails. Then the requests of the run are
  exactly four: the CEO's, the CTO's and the Head of Design's question task, in this
  order, each answered, and after them the evaluation task, built from the three replies.
  So a question task is requested exactly three times, once per persona in the order of
  the registry and each before the evaluation task, and the evaluation task exactly once.
\<close>

theorem questions_then_evaluation:
  assumes nb: "\<exists>c \<in> set p. \<not> isspace c"
    and run: "grill_core gen e p w = (res, w')"
    and log: "calls w' = calls w @ log"
    and ok: "\<forall>t err. (t, Inl err) \<in> set log \<longrightarrow> t \<notin> set (grilling_tasks e p)"
  shows "(\<exists>q1 q2 q3 r.
            log = [(ceo_task p (panel_ceo e), Inr q1), (cto_task p (panel_cto e), Inr q2),
                   (designer_task p (panel_designer e), Inr q3),
                   (create_evaluation_task p (joined q1 q2 q3) (panel_ceo e), r)])
       \<and> length (filter (\<lambda>c. fst c \<in> set (grilling_tasks e p)) log) = 3
       \<and> length (filter (\<lambda>c. fst c \<notin> set (grilling_tasks e p)) log) = 1
       \<and> grilling_tasks e p =
           [ceo_task p (panel_ceo e), cto_task p (panel_cto e), designer_task p (panel_designer e)]
       \<and> map (\<lambda>t. role (agent t)) (grilling_tasks e p)
           = [ustr ''CEO'', ustr ''CTO'', ustr ''Head of Design'']"
proof -
  have nonblank: "strip p \<noteq> []" using nb by (simp add: strip_empty_iff)
  have mem: "ceo_task p (panel_ceo e) \<in> set (grilling_tasks e p)"
    "cto_task p (panel_cto e) \<in> set (grilling_tasks e p)"
    "designer_task p (panel_designer e) \<in> set (grilling_tasks e p)"
    by (simp_all add: grilling_tasks_eq)
  have "(\<exists>q1 q2 q3 r.
            log = [(ceo_task p (panel_ceo e), Inr q1), (cto_task p (panel_cto e), Inr q2),
                   (designer_task p (panel_designer e), Inr q3),
                   (create_evaluation_task p (joined q1 q2 q3) (panel_ceo e), r)])
       \<and> length (filter (\<lambda>c. fst c \<in> set (grilling_tasks e p)) log) = 3
       \<and> length (filter (\<lambda>c. fst c \<notin> set (grilling_tasks e p)) log) = 1"
    using run log
  proof (cases rule: run_log_cases)
    case blank
    then show ?thesis using nonblank by simp
  next
    case (fail1 err)
    then show ?thesis using ok mem by simp
  next
    case (fail2 q1 err)
    then show ?thesis using ok mem by simp
  next
    case (fail3 q1 q2 err)
    then show ?thesis using ok mem by simp
  next
    case (evaluated q1 q2 q3 r)
    then show ?thesis using mem by (simp add: evaluation_task_not_grilling)
  qed
  then show ?thesis using grilling_tasks_eq [of e p] grilling_roles [of e p] by simp
qed

theorem questions_then_evaluation_witness:
  "(\<exists>c \<in> set (ustr ''Ship feature X in Q2 with 2 engineers''). \<not> isspace c)
   \<and> map snd (calls (snd (grill_core scripted_stub e0
        (ustr ''Ship feature X in Q2 with 2 engineers'') w0)))
      = [Inr (ustr ''CEO-Q''), Inr (ustr ''CTO-Q''), Inr (ustr ''Designer-Q''),
         Inr (ustr ''Score: 7\<newline>Strengths: ...\<newline>Gaps: ...\<newline>Improvements: ...'')]
   \<and> length (filter (\<lambda>c. fst c \<in> set (grilling_tasks e0 (ustr ''Ship feature X in Q2 with 2 engineers'')))
        (calls (snd (grill_core scripted_stub e0
           (ustr ''Ship feature X in Q2 with 2 engineers'') w0)))) = 3
   \<and> length (filter (\<lambda>c. fst c \<notin> set (grilling_tasks e0 (ustr ''Ship feature X in Q2 with 2 engineers'')))
        (calls (snd (grill_core scripted_stub e0
           (ustr ''Ship feature X in Q2 with 2 engineers'') w0)))) = 1"
proof -
  let ?P = "ustr ''Ship feature X in Q2 with 2 engineers''"
  let ?R = "grill_core scripted_stub e0 ?P w0"
  have h1: "\<exists>c \<in> set ?P. \<not> isspace c"
    using strip_ship_feature by (simp add: strip_empty_iff)
  have h2: "?R = (fst ?R, snd ?R)" by simp
  have h3: "calls (snd ?R) = calls w0 @ calls (snd ?R)" by (simp add: w0_def)
  have h4: "\<forall>t err. (t, Inl err) \<in> set (calls (snd ?R)) \<longrightarrow> t \<notin> set (grilling_tasks e0 ?P)"
    by (simp add: run_scripted)
  have m: "map snd (calls (snd ?R))
      = [Inr (ustr ''CEO-Q''), Inr (ustr ''CTO-Q''), Inr (ustr ''Designer-Q''),
         Inr (ustr ''Score: 7\<newline>Strengths: ...\<newline>Gaps: ...\<newline>Improvements: ...'')]"
    by (simp add: run_scripted)
  show ?thesis
    using h1 m questions_then_evaluation [OF h1 h2 h3 h4]
    by (intro conjI) (elim conjE, assumption)+
qed

subsection \<open>A failing question task\<close>

text \<open>
  Claim C3. When the request for one of the three question tasks fails, the run ends with
  that failure, no evaluation task is ever requested, and nothing of the questions is
  printed: the console only holds the three opening messages. And every run either ends
  with a failure, or has the three answered question tasks, the text joined from them and
  the answered evaluation task, with all four requests answered.
\<close>

theorem generation_failure_aborts:
  assumes run: "grill_core gen e p w = (res, w')" and log: "calls w' = calls w @ log"
  shows "(\<forall>t err. (t, Inl err) \<in> set log \<and> t \<in> set (grilling_tasks e p) \<longrightarrow>
            res = Inl err
          \<and> (\<forall>p' q a r. (create_evaluation_task p' q a, r) \<notin> set log)
          \<and> console w' = console w @ [Banner, AssemblingMessage, StartingSession])
       \<and> ((\<exists>err. res = Inl err)
          \<or> (\<exists>s q1 q2 q3 a. res = Inr s
                \<and> map output (grilled s) = [Some q1, Some q2, Some q3]
                \<and> composite s = joined q1 q2 q3
                \<and> output (evaluated s) = Some a
                \<and> map snd log = [Inr q1, Inr q2, Inr q3, Inr a]))"
proof (cases "strip p = []")
  case True
  have "log = []" "res = Inl (Exit 1)" using blank_run [OF True run] log by simp_all
  then show ?thesis by simp
next
  case False
  note d = evaluation_task_differs evaluation_task_differs [symmetric]
  from False run show ?thesis
  proof (cases rule: grill_core_cases)
    case (fail1 err)
    then have "log = [(ceo_task p (panel_ceo e), Inl err)]" using log by simp
    then show ?thesis using fail1 by (simp add: d)
  next
    case (fail2 q1 err)
    then have "log = [(ceo_task p (panel_ceo e), Inr q1), (cto_task p (panel_cto e), Inl err)]"
      using log by simp
    then show ?thesis using fail2 by (auto simp: d)
  next
    case (fail3 q1 q2 err)
    then have "log = [(ceo_task p (panel_ceo e), Inr q1), (cto_task p (panel_cto e), Inr q2),
         (designer_task p (panel_designer e), Inl err)]"
      using log by simp
    then show ?thesis using fail3 by (auto simp: d)
  next
    case (fail_eval q1 q2 q3 err)
    then have "log = [(ceo_task p (panel_ceo e), Inr q1), (cto_task p (panel_cto e), Inr q2),
         (designer_task p (panel_designer e), Inr q3),
         (create_evaluation_task p (joined q1 q2 q3) (panel_ceo e), Inl err)]"
      using log by simp
    then show ?thesis using fail_eval by (auto simp: d grilling_tasks_eq)
  next
    case (finished q1 q2 q3 a)
    then have "log = [(ceo_task p (panel_ceo e), Inr q1), (cto_task p (panel_cto e), Inr q2),
         (designer_task p (panel_designer e), Inr q3),
         (create_evaluation_task p (joined q1 q2 q3) (panel_ceo e), Inr a)]"
      using log by simp
    then show ?thesis using finished(1) by simp
  qed
qed

theorem generation_failure_aborts_witness:
  "(cto_task (ustr ''Ship it'') (panel_cto e0), Inl (GenerationFailure (ustr ''timeout'')))
      \<in> set (calls (snd (grill_core cto_down_stub e0 (ustr ''Ship it'') w0)))
   \<and> cto_task (ustr ''Ship it'') (panel_cto e0) \<in> set (grilling_tasks e0 (ustr ''Ship it''))
   \<and> fst (grill_core cto_down_stub e0 (ustr ''Ship it'') w0) = Inl (GenerationFailure (ustr ''timeout''))
   \<and> console (snd (grill_core cto_down_stub e0 (ustr ''Ship it'') w0))
       = [Banner, AssemblingMessage, StartingSession]"
proof -
  let ?R = "grill_core cto_down_stub e0 (ustr ''Ship it'') w0"
  have h1: "?R = (fst ?R, snd ?R)" by simp
  have h2: "calls (snd ?R) = calls w0 @ calls (snd ?R)" by (simp add: w0_def)
  have m: "(cto_task (ustr ''Ship it'') (panel_cto e0), Inl (GenerationFailure (ustr ''timeout'')))
      \<in> set (calls (snd ?R))"
    by (simp add: run_cto_down)
  have g: "cto_task (ustr ''Ship it'') (panel_cto e0) \<in> set (grilling_tasks e0 (ustr ''Ship it''))"
    by (simp add: grilling_tasks_eq)
  have c: "console w0 = []" by (simp add: w0_def)
  show ?thesis
    using generation_failure_aborts [OF h1 h2] m g c by auto
qed

subsection \<open>The text handed to the evaluation\<close>

lemma joined_spec:
  "joined q1 q2 q3 =
     ustr ''\<newline>'' @ spec_aggregate [(ustr ''CEO'', q1), (ustr ''CTO'', q2), (ustr ''Designer'', q3)] @ ustr ''\<newline>''"
  by (simp add: joined_def ustr_def)

text \<open>
  Claim C4, as the code has it. Whenever a run requests a task that is not one of the three
  question tasks, the three question tasks have been answered before it, in order, and the
  request is the evaluation task built from the pitch and from this text: a line break,
  then the specification's aggregate of the three replies under the fixed labels
  \<^verbatim>\<open>CEO\<close>, \<^verbatim>\<open>CTO\<close> and \<^verbatim>\<open>Designer\<close> (blocks \<^verbatim>\<open>Label: reply\<close> separated by one blank
  line, replies verbatim and in the order of the requests), then a line break. A run that
  completes keeps the same text as its composite.
\<close>

theorem composite_passed_to_evaluation:
  assumes run: "grill_core gen e p w = (res, w')" and log: "calls w' = calls w @ log"
    and req: "(t, r) \<in> set log" and ev: "t \<notin> set (grilling_tasks e p)"
  shows "\<exists>q1 q2 q3.
     log = [(ceo_task p (panel_ceo e), Inr q1), (cto_task p (panel_cto e), Inr q2),
            (designer_task p (panel_designer e), Inr q3), (t, r)]
   \<and> t = create_evaluation_task p
           (ustr ''\<newline>'' @ spec_aggregate [(ustr ''CEO'', q1), (ustr ''CTO'', q2), (ustr ''Designer'', q3)] @ ustr ''\<newline>'')
           (panel_ceo e)
   \<and> (\<forall>s. res = Inr s \<longrightarrow>
         map output (grilled s) = [Some q1, Some q2, Some q3]
       \<and> composite s =
           ustr ''\<newline>'' @ spec_aggregate [(ustr ''CEO'', q1), (ustr ''CTO'', q2), (ustr ''Designer'', q3)] @ ustr ''\<newline>'')"
proof (cases "strip p = []")
  case True
  have "log = []" using blank_run [OF True run] log by simp
  then show ?thesis using req by simp
next
  case False
  from False run show ?thesis
  proof (cases rule: grill_core_cases)
    case (fail1 err)
    then have "log = [(ceo_task p (panel_ceo e), Inl err)]" using log by simp
    then show ?thesis using req ev by (simp add: grilling_tasks_eq)
  next
    case (fail2 q1 err)
    then have "log = [(ceo_task p (panel_ceo e), Inr q1), (cto_task p (panel_cto e), Inl err)]"
      using log by simp
    then show ?thesis using req ev by (auto simp: grilling_tasks_eq)
  next
    case (fail3 q1 q2 err)
    then have "log = [(ceo_task p (panel_ceo e), Inr q1), (cto_task p (panel_cto e), Inr q2),
         (designer_task p (panel_designer e), Inl err)]"
      using log by simp
    then show ?thesis using req ev by (auto simp: grilling_tasks_eq)
  next
    case (fail_eval q1 q2 q3 err)
    then have l: "log = [(ceo_task p (panel_ceo e), Inr q1), (cto_task p (panel_cto e), Inr q2),
         (designer_task p (panel_designer e), Inr q3),
         (create_evaluation_task p (joined q1 q2 q3) (panel_ceo e), Inl err)]"
      using log by simp
    then have "t = create_evaluation_task p (joined q1 q2 q3) (panel_ceo e)" "r = Inl err"
      using req ev by (auto simp: grilling_tasks_eq)
    then show ?thesis using l fail_eval(1) by (simp add: joined_spec)
  next
    case (finished q1 q2 q3 a)
    then have l: "log = [(ceo_task p (panel_ceo e), Inr q1), (cto_task p (panel_cto e), Inr q2),
         (designer_task p (panel_designer e), Inr q3),
         (create_evaluation_task p (joined q1 q2 q3) (panel_ceo e), Inr a)]"
      using log by simp
    then have "t = create_evaluation_task p (joined q1 q2 q3) (panel_ceo e)" "r = Inr a"
      using req ev by (auto simp: grilling_tasks_eq)
    then show ?thesis using l finished(1) by (simp add: joined_spec)
  qed
qed

theorem composite_passed_to_evaluation_witness:
  "create_evaluation_task (ustr ''Ship feature X in Q2 with 2 engineers'')
      (joined (ustr ''CEO-Q'') (ustr ''CTO-Q'') (ustr ''Designer-Q'')) (panel_ceo e0)
     \<notin> set (grilling_tasks e0 (ustr ''Ship feature X in Q2 with 2 engineers''))
   \<and> composite (projr (fst (grill_core scripted_stub e0 (ustr ''Ship feature X in Q2 with 2 engineers'') w0)))
     = ustr ''\<newline>'' @ spec_aggregate [(ustr ''CEO'', ustr ''CEO-Q''), (ustr ''CTO'', ustr ''CTO-Q''),
                                  (ustr ''Designer'', ustr ''Designer-Q'')] @ ustr ''\<newline>''"
proof -
  let ?P = "(ustr ''Ship feature X in Q2 with 2 engineers'')"
  let ?R = "grill_core scripted_stub e0 ?P w0"
  let ?t = "create_evaluation_task ?P (joined (ustr ''CEO-Q'') (ustr ''CTO-Q'') (ustr ''Designer-Q'')) (panel_ceo e0)"
  let ?r = "Inr (ustr ''Score: 7\<newline>Strengths: ...\<newline>Gaps: ...\<newline>Improvements: ...'') :: error + str"
  have h1: "?R = (fst ?R, snd ?R)" by simp
  have h2: "calls (snd ?R) = calls w0 @ calls (snd ?R)" by (simp add: w0_def)
  have m: "(?t, ?r) \<in> set (calls (snd ?R))" by (simp add: run_scripted)
  have g: "?t \<notin> set (grilling_tasks e0 ?P)" by (rule evaluation_task_not_grilling)
  have res: "fst ?R = Inr (projr (fst ?R))" by (simp add: run_scripted)
  obtain q1 q2 q3 where
    l: "calls (snd ?R) = [(ceo_task ?P (panel_ceo e0), Inr q1), (cto_task ?P (panel_cto e0), Inr q2),
            (designer_task ?P (panel_designer e0), Inr q3), (?t, ?r)]"
    and c: "\<forall>s. fst ?R = Inr s \<longrightarrow>
         map output (grilled s) = [Some q1, Some q2, Some q3]
       \<and> composite s =
           ustr ''\<newline>'' @ spec_aggregate [(ustr ''CEO'', q1), (ustr ''CTO'', q2), (ustr ''Designer'', q3)] @ ustr ''\<newline>''"
    using composite_passed_to_evaluation [OF h1 h2 m g] by blast
  have "q1 = ustr ''CEO-Q''" "q2 = ustr ''CTO-Q''" "q3 = ustr ''Designer-Q''"
    using l by (simp_all add: run_scripted)
  then show ?thesis using g c res by metis
qed

text \<open>
  Claim C4 as it is worded fails in the scenario run: the third label is \<^verbatim>\<open>Designer\<close>
  while that persona's role is \<^verbatim>\<open>Head of Design\<close>, and the text starts and ends with a
  line break that belongs to no block.
\<close>

theorem composite_counterexample:
  "composite (projr (fst (grill_core scripted_stub e0 (ustr ''Ship feature X in Q2 with 2 engineers'') w0)))
     = ustr ''\<newline>CEO: CEO-Q\<newline>\<newline>CTO: CTO-Q\<newline>\<newline>Designer: Designer-Q\<newline>''
   \<and> spec_aggregate [(role (panel_ceo e0), ustr ''CEO-Q''), (role (panel_cto e0), ustr ''CTO-Q''),
                      (role (panel_designer e0), ustr ''Designer-Q'')]
     = ustr ''CEO: CEO-Q\<newline>\<newline>CTO: CTO-Q\<newline>\<newline>Head of Design: Designer-Q''
   \<and> composite (projr (fst (grill_core scripted_stub e0 (ustr ''Ship feature X in Q2 with 2 engineers'') w0)))
     \<noteq> spec_aggregate [(role (panel_ceo e0), ustr ''CEO-Q''), (role (panel_cto e0), ustr ''CTO-Q''),
                      (role (panel_designer e0), ustr ''Designer-Q'')]"
  by (simp add: run_scripted panel_roles) (simp add: joined_def ustr_def)

subsection \<open>The end-to-end scenario\<close>

text \<open>
  Claim C5. With the pitch \<^verbatim>\<open>"Ship feature X in Q2 with 2 engineers"\<close> and the stub that
  answers \<^verbatim>\<open>CEO-Q\<close>, \<^verbatim>\<open>CTO-Q\<close>, \<^verbatim>\<open>Designer-Q\<close> and then the assessment text, the run
  completes; the three question tasks carry the three replies in the order CEO, CTO, Head
  of Design; the joined text holds the blocks \<^verbatim>\<open>CEO: CEO-Q\<close>, \<^verbatim>\<open>CTO: CTO-Q\<close> and
  \<^verbatim>\<open>Designer: Designer-Q\<close> in this order; the output of the evaluation task, and the
  assessment panel on the console, is the stub's assessment text character for character:
  it stays a text, no number is taken out of it.
\<close>

theorem end_to_end_scenario:
  "\<exists>s w'. grill_core scripted_stub e0 (ustr ''Ship feature X in Q2 with 2 engineers'') w0 = (Inr s, w')
     \<and> map (\<lambda>t. (role (agent t), output t)) (grilled s)
         = [(ustr ''CEO'', Some (ustr ''CEO-Q'')), (ustr ''CTO'', Some (ustr ''CTO-Q'')),
            (ustr ''Head of Design'', Some (ustr ''Designer-Q''))]
     \<and> composite s
         = ustr ''\<newline>CEO: CEO-Q\<newline>\<newline>CTO: CTO-Q\<newline>\<newline>Designer: Designer-Q\<newline>''
     \<and> output (evaluated s)
         = Some (ustr ''Score: 7\<newline>Strengths: ...\<newline>Gaps: ...\<newline>Improvements: ...'')
     \<and> map snd (calls w')
         = [Inr (ustr ''CEO-Q''), Inr (ustr ''CTO-Q''), Inr (ustr ''Designer-Q''),
            Inr (ustr ''Score: 7\<newline>Strengths: ...\<newline>Gaps: ...\<newline>Improvements: ...'')]
     \<and> console w'
         = [Banner, AssemblingMessage, StartingSession,
            QuestionsPanel ''CEO'', MarkdownText (ustr ''CEO-Q''),
            QuestionsPanel ''CTO'', MarkdownText (ustr ''CTO-Q''),
            QuestionsPanel ''Designer'', MarkdownText (ustr ''Designer-Q''),
            CalculatingScore,
            AssessmentPanel (ustr ''Score: 7\<newline>Strengths: ...\<newline>Gaps: ...\<newline>Improvements: ...''),
            SessionComplete]"
proof -
  have roles: "role (agent (ceo_task p (panel_ceo e))) = ustr ''CEO''"
    "role (agent (cto_task p (panel_cto e))) = ustr ''CTO''"
    "role (agent (designer_task p (panel_designer e))) = ustr ''Head of Design''" for p e
    using grilling_roles [of e p] by (simp_all add: grilling_tasks_eq)
  show ?thesis
    by (simp add: run_scripted roles joined_def) (simp add: ustr_def)
qed

subsection \<open>The aggregation on its own\<close>






subsection \<open>Running twice\<close>

lemma fst_execute_task:
  "fst (execute_task gen t w) =
     (case fst (gen t (llm_state w)) of
        Inl err \<Rightarrow> Inl err
      | Inr reply \<Rightarrow> Inr (t\<lparr>output := Some reply\<rparr>))"
  by (simp add: execute_task_def Let_def split: prod.splits sum.splits)

lemma fst_run_tasks_Cons:
  "fst (run_tasks gen (t # ts) w) =
     (case fst (execute_task gen t w) of
        Inl err \<Rightarrow> Inl err
      | Inr t' \<Rightarrow>
          (case fst (run_tasks gen ts (snd (execute_task gen t w))) of
             Inl err \<Rightarrow> Inl err
           | Inr ts' \<Rightarrow> Inr (t' # ts')))"
  by (simp split: prod.splits sum.splits)

lemma execute_task_deterministic:
  "deterministic gen \<Longrightarrow> fst (execute_task gen t w) = fst (execute_task gen t w')"
  unfolding fst_execute_task deterministic_def by metis

lemma run_tasks_deterministic:
  "deterministic gen \<Longrightarrow> fst (run_tasks gen ts w) = fst (run_tasks gen ts w')"
proof (induction ts arbitrary: w w')
  case Nil
  then show ?case by simp
next
  case (Cons t ts)
  have h1: "fst (execute_task gen t w) = fst (execute_task gen t w')"
    using Cons.prems by (rule execute_task_deterministic)
  have h2: "fst (run_tasks gen ts (snd (execute_task gen t w))) =
      fst (run_tasks gen ts (snd (execute_task gen t w')))"
    using Cons.prems by (rule Cons.IH)
  show ?case unfolding fst_run_tasks_Cons h1 h2 ..
qed

lemma grill_core_deterministic:
  assumes det: "deterministic gen"
  shows "fst (grill_core gen e p w) = fst (grill_core gen e p w')"
proof (cases "strip p = []")
  case True
  then show ?thesis by (simp add: grill_core_def)
next
  case nb: False
  let ?G = "grilling_tasks e p"
  obtain r1 w3 where k1: "run_tasks gen ?G (started w) = (r1, w3)"
    by (cases "run_tasks gen ?G (started w)")
  obtain r1' w3' where k1': "run_tasks gen ?G (started w') = (r1', w3')"
    by (cases "run_tasks gen ?G (started w')")
  have r1: "r1' = r1"
    using run_tasks_deterministic [OF det, of ?G "started w" "started w'"] k1 k1' by simp
  show ?thesis
  proof (cases r1)
    case (Inl err)
    have "grill_core gen e p w = (Inl err, w3)"
      by (rule grill_core_generation_failed [OF nb k1 [unfolded Inl]])
    moreover have "grill_core gen e p w' = (Inl err, w3')"
      by (rule grill_core_generation_failed [OF nb k1' [unfolded r1 Inl]])
    ultimately show ?thesis by simp
  next
    case (Inr ts')
    have "\<exists>q1 q2 q3. r1 = Inr [(ceo_task p (panel_ceo e))\<lparr>output := Some q1\<rparr>,
                      (cto_task p (panel_cto e))\<lparr>output := Some q2\<rparr>,
                      (designer_task p (panel_designer e))\<lparr>output := Some q3\<rparr>]"
      using k1 [unfolded grilling_tasks_eq]
    proof (cases rule: run_tasks3_cases)
      case (ok q1 q2 q3)
      then show ?thesis by blast
    qed (simp_all add: Inr)
    then obtain q1 q2 q3 where
      ts': "r1 = Inr [(ceo_task p (panel_ceo e))\<lparr>output := Some q1\<rparr>,
                      (cto_task p (panel_cto e))\<lparr>output := Some q2\<rparr>,
                      (designer_task p (panel_designer e))\<lparr>output := Some q3\<rparr>]"
      by blast
    let ?ev = "create_evaluation_task p (joined q1 q2 q3) (panel_ceo e)"
    let ?w5 = "print CalculatingScore (w3\<lparr>console := console w3 @ shown q1 q2 q3\<rparr>)"
    let ?w5' = "print CalculatingScore (w3'\<lparr>console := console w3' @ shown q1 q2 q3\<rparr>)"
    have e: "fst (run_tasks gen [?ev] ?w5) = fst (run_tasks gen [?ev] ?w5')"
      using det by (rule run_tasks_deterministic)
    have a: "fst (grill_core gen e p w) =
        (case fst (run_tasks gen [?ev] ?w5) of
           Inl err \<Rightarrow> Inl err
         | Inr ets \<Rightarrow> Inr \<lparr>grilled = [(ceo_task p (panel_ceo e))\<lparr>output := Some q1\<rparr>,
                      (cto_task p (panel_cto e))\<lparr>output := Some q2\<rparr>,
                      (designer_task p (panel_designer e))\<lparr>output := Some q3\<rparr>],
                composite = joined q1 q2 q3, evaluated = hd ets\<rparr>)"
      unfolding grill_core_generation_ok [OF nb k1 [unfolded ts']]
      by (simp split: prod.splits sum.splits)
    have b: "fst (grill_core gen e p w') =
        (case fst (run_tasks gen [?ev] ?w5') of
           Inl err \<Rightarrow> Inl err
         | Inr ets \<Rightarrow> Inr \<lparr>grilled = [(ceo_task p (panel_ceo e))\<lparr>output := Some q1\<rparr>,
                      (cto_task p (panel_cto e))\<lparr>output := Some q2\<rparr>,
                      (designer_task p (panel_designer e))\<lparr>output := Some q3\<rparr>],
                composite = joined q1 q2 q3, evaluated = hd ets\<rparr>)"
      unfolding grill_core_generation_ok [OF nb k1' [unfolded r1 ts']]
      by (simp split: prod.splits sum.splits)
    show ?thesis unfolding a b e ..
  qed
qed

text \<open>
  Claim C7. Let the model be deterministic: its reply to a request does not depend on its
  state. Then a second run on the same pitch, started in the state the first run left
  behind (its log, its console, the model's state), ends exactly as the first: with the
  same failure, or with the same answered question tasks, the same joined text and the
  same answered evaluation task.
\<close>

theorem pipeline_deterministic:
  assumes "deterministic gen"
  shows "fst (grill_core gen e p (snd (grill_core gen e p w))) = fst (grill_core gen e p w)"
  using assms by (rule grill_core_deterministic)

lemma role_stub_deterministic: "deterministic role_stub"
  by (simp add: deterministic_def role_stub_def)

theorem pipeline_deterministic_witness:
  "deterministic role_stub
   \<and> fst (grill_core role_stub e0 (ustr ''Ship it'') (snd (grill_core role_stub e0 (ustr ''Ship it'') w0)))
     = fst (grill_core role_stub e0 (ustr ''Ship it'') w0)"
  using role_stub_deterministic pipeline_deterministic [OF role_stub_deterministic]
  by (rule conjI)

subsection \<open>What the requests say\<close>

lemma ceo_task_template:
  "\<exists>head tail. (\<forall>x a. description (ceo_task x a) = head @ x @ tail)
      \<and> sublist (ustr ''ask 2-3 tough business questions'') head \<and>
      sublist (ustr ''Ask questions a CEO would ask'') tail \<and>
      sublist (ustr ''ROI'') tail \<and>
      sublist (ustr ''market timing'') tail \<and>
      sublist (ustr ''choosing NOT to do'') tail"
proof -
  define h :: string where "h =
      ''Review this roadmap pitch and ask 2-3 tough business questions:\<newline>'' @
      ''\<newline>'' @
      ''PITCH:\<newline>''"
  define t :: string where "t =
      ''\<newline>'' @
      ''\<newline>'' @
      ''Ask questions a CEO would ask:\<newline>'' @
      ''- What's the ROI and how did you calculate it?\<newline>'' @
      ''- Why now? What's the market timing?\<newline>'' @
      ''- What are we choosing NOT to do by pursuing this?\<newline>'' @
      ''- How does this align with our strategic priorities?\<newline>'' @
      ''- What's the competitive risk if we don't do this?\<newline>'' @
      ''\<newline>'' @
      ''Be direct but constructive. Challenge assumptions.''"
  have d: "\<forall>x a. description (ceo_task x a) = ustr h @ x @ ustr t"
    by (simp add: ceo_task_def h_def t_def)
  have h0: "sublist (ustr ''ask 2-3 tough business questions'') (ustr h)"
    by (rule sublist_ustr) (unfold h_def, code_simp)
  have t0: "sublist (ustr ''Ask questions a CEO would ask'') (ustr t)"
    by (rule sublist_ustr) (unfold t_def, code_simp)
  have t1: "sublist (ustr ''ROI'') (ustr t)"
    by (rule sublist_ustr) (unfold t_def, code_simp)
  have t2: "sublist (ustr ''market timing'') (ustr t)"
    by (rule sublist_ustr) (unfold t_def, code_simp)
  have t3: "sublist (ustr ''choosing NOT to do'') (ustr t)"
    by (rule sublist_ustr) (unfold t_def, code_simp)
  show ?thesis
    by (intro exI [of _ "ustr h"] exI [of _ "ustr t"] conjI d h0 t0 t1 t2 t3)
qed

lemma cto_task_template:
  "\<exists>head tail. (\<forall>x a. description (cto_task x a) = head @ x @ tail)
      \<and> sublist (ustr ''ask 2-3 tough technical questions'') head \<and>
      sublist (ustr ''Ask questions a CTO would ask'') tail \<and>
      sublist (ustr ''scale'') tail \<and>
      sublist (ustr ''technical debt'') tail \<and>
      sublist (ustr ''integration risks'') tail"
proof -
  define h :: string where "h =
      ''Review this roadmap pitch and ask 2-3 tough technical questions:\<newline>'' @
      ''\<newline>'' @
      ''PITCH:\<newline>''"
  define t :: string where "t =
      ''\<newline>'' @
      ''\<newline>'' @
      ''Ask questions a CTO would ask:\<newline>'' @
      ''- How does this scale? What's the architecture?\<newline>'' @
      ''- What technical debt are we taking on?\<newline>'' @
      ''- What are the integration risks with existing systems?\<newline>'' @
      ''- Do we have the team capacity and skills?\<newline>'' @
      ''- What's the rollback plan if it fails?\<newline>'' @
      ''\<newline>'' @
      ''Be thorough but fair. Identify real technical risks.''"
  have d: "\<forall>x a. description (cto_task x a) = ustr h @ x @ ustr t"
    by (simp add: cto_task_def h_def t_def)
  have h0: "sublist (ustr ''ask 2-3 tough technical questions'') (ustr h)"
    by (rule sublist_ustr) (unfold h_def, code_simp)
  have t0: "sublist (ustr ''Ask questions a CTO would ask'') (ustr t)"
    by (rule sublist_ustr) (unfold t_def, code_simp)
  have t1: "sublist (ustr ''scale'') (ustr t)"
    by (rule sublist_ustr) (unfold t_def, code_simp)
  have t2: "sublist (ustr ''technical debt'') (ustr t)"
    by (rule sublist_ustr) (unfold t_def, code_simp)
  have t3: "sublist (ustr ''integration risks'') (ustr t)"
    by (rule sublist_ustr) (unfold t_def, code_simp)
  show ?thesis
    by (intro exI [of _ "ustr h"] exI [of _ "ustr t"] conjI d h0 t0 t1 t2 t3)
qed

lemma designer_task_template:
  "\<exists>head tail. (\<forall>x a. description (designer_task x a) = head @ x @ tail)
      \<and> sublist (ustr ''ask 2-3 tough user experience questions'') head \<and>
      sublist (ustr ''Ask questions a Head of Design would ask'') tail \<and>
      sublist (ustr ''validated this with users'') tail \<and>
      sublist (ustr ''UX complexity'') tail"
proof -
  define h :: string where "h =
      ''Review this roadmap pitch and ask 2-3 tough user experience questions:\<newline>'' @
      ''\<newline>'' @
      ''PITCH:\<newline>''"
  define t :: string where "t =
      ''\<newline>'' @
      ''\<newline>'' @
      ''Ask questions a Head of Design would ask:\<newline>'' @
      ''- What specific user problem does this solve?\<newline>'' @
      ''- How have we validated this with users?\<newline>'' @
      ''- What's the UX complexity for end users?\<newline>'' @
      ''- How does this fit with our existing product experience?\<newline>'' @
      ''- What are users asking for that we're ignoring?\<newline>'' @
      ''\<newline>'' @
      ''Be user-focused but practical. Advocate for the customer.''"
  have d: "\<forall>x a. description (designer_task x a) = ustr h @ x @ ustr t"
    by (simp add: designer_task_def h_def t_def)
  have h0: "sublist (ustr ''ask 2-3 tough user experience questions'') (ustr h)"
    by (rule sublist_ustr) (unfold h_def, code_simp)
  have t0: "sublist (ustr ''Ask questions a Head of Design would ask'') (ustr t)"
    by (rule sublist_ustr) (unfold t_def, code_simp)
  have t1: "sublist (ustr ''validated this with users'') (ustr t)"
    by (rule sublist_ustr) (unfold t_def, code_simp)
  have t2: "sublist (ustr ''UX complexity'') (ustr t)"
    by (rule sublist_ustr) (unfold t_def, code_simp)
  show ?thesis
    by (intro exI [of _ "ustr h"] exI [of _ "ustr t"] conjI d h0 t0 t1 t2)
qed

lemma evaluation_task_template:
  "\<exists>head mid tail. (\<forall>x q a. description (create_evaluation_task x q a) = head @ x @ mid @ q @ tail)
      \<and> sublist (ustr ''ORIGINAL PITCH:'') head \<and> sublist (ustr ''STAKEHOLDER QUESTIONS:'') mid
      \<and> sublist (ustr ''readiness assessment'') head"
proof -
  define h :: string where "h =
      ''Based on the stakeholder questions raised about this pitch, provide a readiness assessment:\<newline>'' @
      ''\<newline>'' @
      ''ORIGINAL PITCH:\<newline>''"
  define m :: string where "m =
      ''\<newline>'' @
      ''\<newline>'' @
      ''STAKEHOLDER QUESTIONS:\<newline>''"
  define t :: string where "t =
      ''\<newline>'' @
      ''\<newline>'' @
      ''Provide:\<newline>'' @
      ''1. **Readiness Score**: 1-10 (10 = ready to present to real stakeholders)\<newline>'' @
      ''2. **Strengths**: What's strong about this pitch?\<newline>'' @
      ''3. **Gaps**: What needs more work before the real meeting?\<newline>'' @
      ''4. **Suggested Improvements**: 3 specific things to add or clarify\<newline>'' @
      ''\<newline>'' @
      ''Be honest and helpful. The goal is to make them better prepared.''"
  have d: "\<forall>x q a. description (create_evaluation_task x q a) = ustr h @ x @ ustr m @ q @ ustr t"
    by (simp add: create_evaluation_task_def h_def m_def t_def)
  have h0: "sublist (ustr ''ORIGINAL PITCH:'') (ustr h)"
    by (rule sublist_ustr) (unfold h_def, code_simp)
  have m0: "sublist (ustr ''STAKEHOLDER QUESTIONS:'') (ustr m)"
    by (rule sublist_ustr) (unfold m_def, code_simp)
  have h1: "sublist (ustr ''readiness assessment'') (ustr h)"
    by (rule sublist_ustr) (unfold h_def, code_simp)
  show ?thesis
    by (intro exI [of _ "ustr h"] exI [of _ "ustr m"] exI [of _ "ustr t"] conjI d h0 m0 h1)
qed

text \<open>
  Claim C8. Every request of a run is the CEO's, the CTO's or the Head of Design's question
  task for the pitch of the run, or the evaluation task for that pitch and the text joined
  from the three replies. The description of each question task is a fixed text, the pitch,
  and a fixed text; the fixed texts ask for 2-3 tough questions, say whose questions to ask,
  and name the angles of that persona (ROI, market timing and what is not done for the CEO;
  scaling, technical debt and integration risks for the CTO; validation with users and UX
  complexity for the Head of Design). The description of the evaluation task is a fixed
  text, the pitch, a fixed text, the questions, and a fixed text.
\<close>

theorem requests_follow_templates:
  assumes run: "grill_core gen e p w = (res, w')" and log: "calls w' = calls w @ log"
    and req: "(t, r) \<in> set log"
  shows "(t = ceo_task p (panel_ceo e) \<or> t = cto_task p (panel_cto e)
          \<or> t = designer_task p (panel_designer e)
          \<or> (\<exists>q1 q2 q3. map snd (take 3 log) = [Inr q1, Inr q2, Inr q3]
                \<and> t = create_evaluation_task p (joined q1 q2 q3) (panel_ceo e)))
    \<and> (\<exists>head tail. (\<forall>x a. description (ceo_task x a) = head @ x @ tail)
          \<and> sublist (ustr ''ask 2-3 tough business questions'') head
          \<and> sublist (ustr ''Ask questions a CEO would ask'') tail
          \<and> sublist (ustr ''ROI'') tail
          \<and> sublist (ustr ''market timing'') tail
          \<and> sublist (ustr ''choosing NOT to do'') tail)
    \<and> (\<exists>head tail. (\<forall>x a. description (cto_task x a) = head @ x @ tail)
          \<and> sublist (ustr ''ask 2-3 tough technical questions'') head
          \<and> sublist (ustr ''Ask questions a CTO would ask'') tail
          \<and> sublist (ustr ''scale'') tail
          \<and> sublist (ustr ''technical debt'') tail
          \<and> sublist (ustr ''integration risks'') tail)
    \<and> (\<exists>head tail. (\<forall>x a. description (designer_task x a) = head @ x @ tail)
          \<and> sublist (ustr ''ask 2-3 tough user experience questions'') head
          \<and> sublist (ustr ''Ask questions a Head of Design would ask'') tail
          \<and> sublist (ustr ''validated this with users'') tail
          \<and> sublist (ustr ''UX complexity'') tail)
    \<and> (\<exists>head mid tail.
          (\<forall>x q a. description (create_evaluation_task x q a) = head @ x @ mid @ q @ tail)
          \<and> sublist (ustr ''ORIGINAL PITCH:'') head
          \<and> sublist (ustr ''STAKEHOLDER QUESTIONS:'') mid
          \<and> sublist (ustr ''readiness assessment'') head)"
proof -
  have first: "t = ceo_task p (panel_ceo e) \<or> t = cto_task p (panel_cto e)
          \<or> t = designer_task p (panel_designer e)
          \<or> (\<exists>q1 q2 q3. map snd (take 3 log) = [Inr q1, Inr q2, Inr q3]
                \<and> t = create_evaluation_task p (joined q1 q2 q3) (panel_ceo e))"
    using run log
  proof (cases rule: run_log_cases)
    case blank
    then show ?thesis using req by simp
  next
    case (fail1 err)
    then show ?thesis using req by simp
  next
    case (fail2 q1 err)
    then show ?thesis using req by auto
  next
    case (fail3 q1 q2 err)
    then show ?thesis using req by auto
  next
    case (evaluated q1 q2 q3 r)
    then show ?thesis using req by auto
  qed
  show ?thesis
    by (intro conjI first ceo_task_template cto_task_template designer_task_template
        evaluation_task_template)
qed

theorem requests_follow_templates_witness:
  "(ceo_task (ustr ''Ship feature X in Q2 with 2 engineers'') (panel_ceo e0), Inr (ustr ''CEO-Q''))
     \<in> set (calls (snd (grill_core scripted_stub e0 (ustr ''Ship feature X in Q2 with 2 engineers'') w0)))
   \<and> (\<exists>head tail. (\<forall>x a. description (ceo_task x a) = head @ x @ tail)
          \<and> sublist (ustr ''ask 2-3 tough business questions'') head
          \<and> sublist (ustr ''Ask questions a CEO would ask'') tail
          \<and> sublist (ustr ''ROI'') tail
          \<and> sublist (ustr ''market timing'') tail
          \<and> sublist (ustr ''choosing NOT to do'') tail)"
proof -
  let ?P = "(ustr ''Ship feature X in Q2 with 2 engineers'')"
  let ?R = "grill_core scripted_stub e0 ?P w0"
  have h1: "?R = (fst ?R, snd ?R)" by simp
  have h2: "calls (snd ?R) = calls w0 @ calls (snd ?R)" by (simp add: w0_def)
  have m: "(ceo_task ?P (panel_ceo e0), Inr (ustr ''CEO-Q'')) \<in> set (calls (snd ?R))"
    by (simp add: run_scripted)
  show ?thesis
    using m requests_follow_templates [OF h1 h2 m] by (intro conjI) (elim conjE, assumption)+
qed

subsection \<open>Who evaluates\<close>

lemma panel_ceo_profile:
  "role (panel_ceo e) = ustr ''CEO''"
  "goal (panel_ceo e) = ustr ''Evaluate roadmap proposals from a business and strategic perspective''"
  "backstory (panel_ceo e) = backstory (ceo_agent (LLM_CONFIG e))"
  "create_stakeholders (LLM_CONFIG e) = (panel_ceo e, panel_cto e, panel_designer e)"
  by (simp_all add: panel_ceo_def panel_cto_def panel_designer_def ceo_agent_def
      create_stakeholders_def)

text \<open>
  Claim C9. Take a pitch text with at least one character that is not whitespace, and a run
  on it in which no request for a question task fails. Then the run does request the
  evaluation: its fourth and last request is the evaluation task, which is none of the
  question tasks, and the agent of that task is the first agent of
  \<^verbatim>\<open>create_stakeholders()\<close>. It is the agent of the CEO's question task, the first request
  of the run, which has been answered; its role is \<^verbatim>\<open>CEO\<close>, its goal and backstory are
  the CEO's. A run creates three agents and no more; they differ from one another, so the
  evaluating agent is the CEO's object and neither of the other two. When the run
  completes, the assessment it keeps is the reply to this request.
\<close>

theorem evaluation_by_ceo_agent:
  assumes nb: "\<exists>c \<in> set p. \<not> isspace c"
    and run: "grill_core gen e p w = (res, w')"
    and log: "calls w' = calls w @ log"
    and ok: "\<forall>t err. (t, Inl err) \<in> set log \<longrightarrow> t \<notin> set (grilling_tasks e p)"
  shows "\<exists>q1 q2 q3 t r.
       log = [(ceo_task p (panel_ceo e), Inr q1), (cto_task p (panel_cto e), Inr q2),
              (designer_task p (panel_designer e), Inr q3), (t, r)]
     \<and> t = create_evaluation_task p (joined q1 q2 q3) (agent (fst (hd log)))
     \<and> t \<notin> set (grilling_tasks e p)
     \<and> agent t = agent (fst (hd log))
     \<and> agent t = fst (create_stakeholders (LLM_CONFIG e))
     \<and> role (agent t) = ustr ''CEO''
     \<and> goal (agent t)
         = ustr ''Evaluate roadmap proposals from a business and strategic perspective''
     \<and> backstory (agent t) = backstory (ceo_agent (LLM_CONFIG e))
     \<and> distinct [agent t, panel_cto e, panel_designer e]
     \<and> (\<forall>s. res = Inr s \<longrightarrow> (\<exists>a. r = Inr a \<and> evaluated s = t\<lparr>output := Some a\<rparr>))"
proof -
  have nonblank: "strip p \<noteq> []" using nb by (simp add: strip_empty_iff)
  have mem: "ceo_task p (panel_ceo e) \<in> set (grilling_tasks e p)"
    "cto_task p (panel_cto e) \<in> set (grilling_tasks e p)"
    "designer_task p (panel_designer e) \<in> set (grilling_tasks e p)"
    by (simp_all add: grilling_tasks_eq)
  note prof = panel_ceo_profile [of e] panel_distinct [of e] task_agents
    evaluation_task_not_grilling
  from nonblank run show ?thesis
  proof (cases rule: grill_core_cases)
    case (fail1 err)
    then have "log = [(ceo_task p (panel_ceo e), Inl err)]" using log by simp
    then show ?thesis using ok mem by simp
  next
    case (fail2 q1 err)
    then have "log = [(ceo_task p (panel_ceo e), Inr q1), (cto_task p (panel_cto e), Inl err)]"
      using log by simp
    then show ?thesis using ok mem by simp
  next
    case (fail3 q1 q2 err)
    then have "log = [(ceo_task p (panel_ceo e), Inr q1), (cto_task p (panel_cto e), Inr q2),
        (designer_task p (panel_designer e), Inl err)]"
      using log by simp
    then show ?thesis using ok mem by simp
  next
    case (fail_eval q1 q2 q3 err)
    then have "log = [(ceo_task p (panel_ceo e), Inr q1), (cto_task p (panel_cto e), Inr q2),
        (designer_task p (panel_designer e), Inr q3),
        (create_evaluation_task p (joined q1 q2 q3) (panel_ceo e), Inl err)]"
      using log by simp
    then show ?thesis using fail_eval(1) prof by simp
  next
    case (finished q1 q2 q3 a)
    then have "log = [(ceo_task p (panel_ceo e), Inr q1), (cto_task p (panel_cto e), Inr q2),
        (designer_task p (panel_designer e), Inr q3),
        (create_evaluation_task p (joined q1 q2 q3) (panel_ceo e), Inr a)]"
      using log by simp
    then show ?thesis using finished(1) prof by simp
  qed
qed

theorem evaluation_by_ceo_agent_witness:
  "(\<exists>c \<in> set (ustr ''Ship feature X in Q2 with 2 engineers''). \<not> isspace c)
   \<and> length (calls (snd (grill_core scripted_stub e0
        (ustr ''Ship feature X in Q2 with 2 engineers'') w0))) = 4
   \<and> fst (last (calls (snd (grill_core scripted_stub e0
        (ustr ''Ship feature X in Q2 with 2 engineers'') w0))))
      \<notin> set (grilling_tasks e0 (ustr ''Ship feature X in Q2 with 2 engineers''))
   \<and> role (agent (fst (last (calls (snd (grill_core scripted_stub e0
        (ustr ''Ship feature X in Q2 with 2 engineers'') w0)))))) = ustr ''CEO''
   \<and> agent (fst (last (calls (snd (grill_core scripted_stub e0
        (ustr ''Ship feature X in Q2 with 2 engineers'') w0)))))
      = agent (fst (hd (calls (snd (grill_core scripted_stub e0
        (ustr ''Ship feature X in Q2 with 2 engineers'') w0)))))
   \<and> output (evaluated (projr (fst (grill_core scripted_stub e0
        (ustr ''Ship feature X in Q2 with 2 engineers'') w0))))
      = Some (ustr ''Score: 7\<newline>Strengths: ...\<newline>Gaps: ...\<newline>Improvements: ...'')"
proof -
  let ?P = "ustr ''Ship feature X in Q2 with 2 engineers''"
  let ?R = "grill_core scripted_stub e0 ?P w0"
  have h1: "\<exists>c \<in> set ?P. \<not> isspace c"
    using strip_ship_feature by (simp add: strip_empty_iff)
  have h2: "?R = (fst ?R, snd ?R)" by simp
  have h3: "calls (snd ?R) = calls w0 @ calls (snd ?R)" by (simp add: w0_def)
  have h4: "\<forall>t err. (t, Inl err) \<in> set (calls (snd ?R)) \<longrightarrow> t \<notin> set (grilling_tasks e0 ?P)"
    by (simp add: run_scripted)
  have o: "output (evaluated (projr (fst ?R)))
      = Some (ustr ''Score: 7\<newline>Strengths: ...\<newline>Gaps: ...\<newline>Improvements: ...'')"
    by (simp add: run_scripted)
  have "length (calls (snd ?R)) = 4
      \<and> fst (last (calls (snd ?R))) \<notin> set (grilling_tasks e0 ?P)
      \<and> role (agent (fst (last (calls (snd ?R))))) = ustr ''CEO''
      \<and> agent (fst (last (calls (snd ?R)))) = agent (fst (hd (calls (snd ?R))))"
    using evaluation_by_ceo_agent [OF h1 h2 h3 h4] by (elim exE conjE) simp
  then show ?thesis using h1 o by (intro conjI) (elim conjE, assumption)+
qed

subsection \<open>The pitch is quoted as it was read\<close>

lemma ceo_task_inject: "ceo_task p a = ceo_task p' a' \<Longrightarrow> p = p'"
proof -
  assume eq: "ceo_task p a = ceo_task p' a'"
  obtain h t where d: "\<forall>x a. description (ceo_task x a) = h @ x @ t"
    using ceo_task_template by blast
  have "h @ p @ t = h @ p' @ t" using arg_cong [OF eq, of description] d by simp
  then show "p = p'" by simp
qed

lemma cto_task_inject: "cto_task p a = cto_task p' a' \<Longrightarrow> p = p'"
proof -
  assume eq: "cto_task p a = cto_task p' a'"
  obtain h t where d: "\<forall>x a. description (cto_task x a) = h @ x @ t"
    using cto_task_template by blast
  have "h @ p @ t = h @ p' @ t" using arg_cong [OF eq, of description] d by simp
  then show "p = p'" by simp
qed

lemma designer_task_inject: "designer_task p a = designer_task p' a' \<Longrightarrow> p = p'"
proof -
  assume eq: "designer_task p a = designer_task p' a'"
  obtain h t where d: "\<forall>x a. description (designer_task x a) = h @ x @ t"
    using designer_task_template by blast
  have "h @ p @ t = h @ p' @ t" using arg_cong [OF eq, of description] d by simp
  then show "p = p'" by simp
qed

lemma evaluation_task_inject:
  "create_evaluation_task p q a = create_evaluation_task p' q a' \<Longrightarrow> p = p'"
proof -
  assume eq: "create_evaluation_task p q a = create_evaluation_task p' q a'"
  obtain h m t where
    d: "\<forall>x q a. description (create_evaluation_task x q a) = h @ x @ m @ q @ t"
    using evaluation_task_template by blast
  have "h @ p @ m @ q @ t = h @ p' @ m @ q @ t"
    using arg_cong [OF eq, of description] d by simp
  then show "p = p'" by simp
qed

lemma read_pitch_verbatim:
  assumes "read_pitch e pitch pitch_file w = (Inr p, w1)"
  shows "calls w1 = calls w"
    and "(truthy pitch_file \<and> files e (the pitch_file) = Some p)
       \<or> (\<not> truthy pitch_file \<and> truthy pitch \<and> pitch = Some p)
       \<or> (\<not> truthy pitch_file \<and> \<not> truthy pitch \<and> stdin e = p)"
  using assms
  by (auto simp: read_pitch_def print_def split: if_splits option.splits
      elim: truthy.elims)

text \<open>
  Claim C10. The text that \<^verbatim>\<open>grill\<close> reads (the file's content, else the option's value,
  else standard input) is trimmed for the emptiness test only. Every request of the run is
  built from the text as it was read: it is the question task or the evaluation task for
  that text, and when trimming would change the text, it differs from the task for the
  trimmed text.
\<close>

theorem pitch_embedded_untrimmed:
  assumes rd: "read_pitch e pitch pitch_file w = (Inr p, w1)"
    and run: "grill gen e pitch pitch_file w = (res, w')"
    and log: "calls w' = calls w @ log"
    and req: "(t, r) \<in> set log"
  shows "((truthy pitch_file \<and> files e (the pitch_file) = Some p)
          \<or> (\<not> truthy pitch_file \<and> truthy pitch \<and> pitch = Some p)
          \<or> (\<not> truthy pitch_file \<and> \<not> truthy pitch \<and> stdin e = p))
       \<and> strip p \<noteq> []
       \<and> ((t = ceo_task p (panel_ceo e)
             \<and> (strip p \<noteq> p \<longrightarrow> t \<noteq> ceo_task (strip p) (panel_ceo e)))
          \<or> (t = cto_task p (panel_cto e)
             \<and> (strip p \<noteq> p \<longrightarrow> t \<noteq> cto_task (strip p) (panel_cto e)))
          \<or> (t = designer_task p (panel_designer e)
             \<and> (strip p \<noteq> p \<longrightarrow> t \<noteq> designer_task (strip p) (panel_designer e)))
          \<or> (\<exists>q. t = create_evaluation_task p q (panel_ceo e)
             \<and> (strip p \<noteq> p \<longrightarrow> t \<noteq> create_evaluation_task (strip p) q (panel_ceo e))))"
proof -
  have core: "grill_core gen e p w1 = (res, w')" using rd run by (simp add: grill_def)
  have log1: "calls w' = calls w1 @ log" using log read_pitch_verbatim(1) [OF rd] by simp
  have tasks: "strip p \<noteq> []
       \<and> ((t = ceo_task p (panel_ceo e)
             \<and> (strip p \<noteq> p \<longrightarrow> t \<noteq> ceo_task (strip p) (panel_ceo e)))
          \<or> (t = cto_task p (panel_cto e)
             \<and> (strip p \<noteq> p \<longrightarrow> t \<noteq> cto_task (strip p) (panel_cto e)))
          \<or> (t = designer_task p (panel_designer e)
             \<and> (strip p \<noteq> p \<longrightarrow> t \<noteq> designer_task (strip p) (panel_designer e)))
          \<or> (\<exists>q. t = create_evaluation_task p q (panel_ceo e)
             \<and> (strip p \<noteq> p \<longrightarrow> t \<noteq> create_evaluation_task (strip p) q (panel_ceo e))))"
  proof -
    have i1: "strip p \<noteq> p \<longrightarrow> ceo_task p (panel_ceo e) \<noteq> ceo_task (strip p) (panel_ceo e)"
      using ceo_task_inject [of p "panel_ceo e" "strip p" "panel_ceo e"] by auto
    have i2: "strip p \<noteq> p \<longrightarrow> cto_task p (panel_cto e) \<noteq> cto_task (strip p) (panel_cto e)"
      using cto_task_inject [of p "panel_cto e" "strip p" "panel_cto e"] by auto
    have i3: "strip p \<noteq> p \<longrightarrow>
        designer_task p (panel_designer e) \<noteq> designer_task (strip p) (panel_designer e)"
      using designer_task_inject [of p "panel_designer e" "strip p" "panel_designer e"] by auto
    have i4: "strip p \<noteq> p \<longrightarrow>
        create_evaluation_task p q (panel_ceo e) \<noteq> create_evaluation_task (strip p) q (panel_ceo e)"
      for q
      using evaluation_task_inject [of p q "panel_ceo e" "strip p" "panel_ceo e"] by auto
    have "strip p \<noteq> [] \<and> (t = ceo_task p (panel_ceo e) \<or> t = cto_task p (panel_cto e)
        \<or> t = designer_task p (panel_designer e)
        \<or> (\<exists>q. t = create_evaluation_task p q (panel_ceo e)))"
      using core log1
    proof (cases rule: run_log_cases)
      case blank
      then show ?thesis using req by simp
    next
      case (fail1 err)
      then show ?thesis using req by simp
    next
      case (fail2 q1 err)
      then show ?thesis using req by auto
    next
      case (fail3 q1 q2 err)
      then show ?thesis using req by auto
    next
      case (evaluated q1 q2 q3 r)
      then show ?thesis using req by auto
    qed
    then consider
        (a) "strip p \<noteq> []" "t = ceo_task p (panel_ceo e)"
      | (b) "strip p \<noteq> []" "t = cto_task p (panel_cto e)"
      | (c) "strip p \<noteq> []" "t = designer_task p (panel_designer e)"
      | (d) q where "strip p \<noteq> []" "t = create_evaluation_task p q (panel_ceo e)"
      by auto
    then show ?thesis
    proof cases
      case a
      then show ?thesis using i1 by simp
    next
      case b
      then show ?thesis using i2 by simp
    next
      case c
      then show ?thesis using i3 by simp
    next
      case d
      then show ?thesis using i4 [of q] by auto
    qed
  qed
  show ?thesis by (rule conjI [OF read_pitch_verbatim(2) [OF rd] tasks])
qed

theorem pitch_embedded_untrimmed_witness:
  "read_pitch e0 (Some (ustr '' Ship it\<newline>'')) None w0 = (Inr (ustr '' Ship it\<newline>''), w0)
   \<and> (ceo_task (ustr '' Ship it\<newline>'') (panel_ceo e0), Inl (GenerationFailure (ustr ''connection refused'')))
       \<in> set (calls (snd (grill unreachable_stub e0 (Some (ustr '' Ship it\<newline>'')) None w0)))
   \<and> strip (ustr '' Ship it\<newline>'') = ustr ''Ship it''
   \<and> strip (ustr '' Ship it\<newline>'') \<noteq> []"
proof -
  let ?P = "(ustr '' Ship it\<newline>'')"
  let ?G = "grill unreachable_stub e0 (Some ?P) None w0"
  have rd: "read_pitch e0 (Some ?P) None w0 = (Inr ?P, w0)"
    by (simp add: read_pitch_def ustr_simps)
  have h1: "?G = (fst ?G, snd ?G)" by simp
  have h2: "calls (snd ?G) = calls w0 @ calls (snd ?G)" by (simp add: w0_def)
  have m: "(ceo_task ?P (panel_ceo e0), Inl (GenerationFailure (ustr ''connection refused'')))
      \<in> set (calls (snd ?G))"
    by (simp add: run_padded)
  have s: "strip ?P = ustr ''Ship it''" by (rule strip_padded)
  have "strip ?P \<noteq> []" using pitch_embedded_untrimmed [OF rd h1 h2 m] by (elim conjE)
  then show ?thesis using rd m s by (intro conjI)
qed

end
